theory Spec2Isabelle
  imports Complex_Main
begin

section \<open>JavaScript numbers, strings and dates\<close>

text \<open>
  The services compute on JavaScript numbers. They are modelled as real numbers: the
  arithmetic is exact, and the special values NaN and the infinities are not part of the
  model (the form that feeds \<open>setLocation\<close> discards NaN before calling it).
\<close>

type_synonym number = real

definition Math_floor :: "number \<Rightarrow> number" where
  "Math_floor v = of_int \<lfloor>v\<rfloor>"

text \<open>\<open>Math.round\<close> rounds to the nearest integer, a tie going up.\<close>

definition Math_round :: "number \<Rightarrow> number" where
  "Math_round v = of_int \<lfloor>v + 1 / 2\<rfloor>"

definition Math_abs :: "number \<Rightarrow> number" where
  "Math_abs v = \<bar>v\<bar>"

text \<open>The remainder operator \<open>%\<close>: the quotient is truncated towards zero, so the result
  has the sign of the dividend. The divisors of this program are non-zero constants.\<close>

definition js_trunc :: "number \<Rightarrow> int" where
  "js_trunc v = (if 0 \<le> v then \<lfloor>v\<rfloor> else \<lceil>v\<rceil>)"

definition js_rem :: "number \<Rightarrow> number \<Rightarrow> number" where
  "js_rem a b = a - b * of_int (js_trunc (a / b))"

text \<open>\<open>Number.prototype.toString\<close> on an integral value, and \<open>String.prototype.padStart\<close>.\<close>

fun digits_of :: "nat \<Rightarrow> string" where
  "digits_of n =
     (if n < 10 then [''0123456789'' ! n]
      else digits_of (n div 10) @ [''0123456789'' ! (n mod 10)])"

definition int_toString :: "int \<Rightarrow> string" where
  "int_toString i = (if i < 0 then ''-'' @ digits_of (nat (- i)) else digits_of (nat i))"

definition padStart :: "nat \<Rightarrow> char \<Rightarrow> string \<Rightarrow> string" where
  "padStart n c s = replicate (n - length s) c @ s"

text \<open>An exception is a value: the \<open>Error\<close> object with its message.\<close>

datatype js_error = Error string

text \<open>A Luxon \<open>DateTime\<close>: an instant in epoch milliseconds, and the zone it is shown in.\<close>

record DateTime =
  dt_ts :: number
  dt_zone :: string

definition plus_minutes :: "DateTime \<Rightarrow> number \<Rightarrow> DateTime" where
  "plus_minutes dt m = dt\<lparr>dt_ts := dt_ts dt + m * 60000\<rparr>"

definition plus_hours :: "DateTime \<Rightarrow> number \<Rightarrow> DateTime" where
  "plus_hours dt h = dt\<lparr>dt_ts := dt_ts dt + h * 3600000\<rparr>"

definition toUTC :: "DateTime \<Rightarrow> DateTime" where
  "toUTC dt = dt\<lparr>dt_zone := ''UTC''\<rparr>"

definition toMillis :: "DateTime \<Rightarrow> number" where
  "toMillis dt = dt_ts dt"

text \<open>
  The ephemeris library (astronomy-engine) is not part of the repository. Its values are
  records with the fields the services read, and its functions are fields of the record
  \<open>Astronomy\<close>, so every statement below holds for whatever the library computes. A
  function that may throw returns a sum, and one that may return \<open>null\<close> an option.
\<close>

record AstroTime =
  at_date :: number
  at_ut :: number
  at_tt :: number

record Observer =
  obs_latitude :: number
  obs_longitude :: number
  obs_height :: number

datatype Body = Sun | Moon

record Equatorial =
  eq_ra :: number
  eq_dec :: number

record GlobalSolarEclipseInfo =
  gs_peak :: AstroTime
  gs_obscuration :: number

text \<open>The services read \<open>partial_begin.tt\<close> and \<open>partial_end.tt\<close> inside a \<open>try\<close>: a field
  the library left undefined makes that read throw, so these fields are options.\<close>

record LunarEclipseInfo =
  le_peak :: AstroTime
  le_obscuration :: number
  le_partial_begin :: "AstroTime option"
  le_partial_end :: "AstroTime option"

record LocalSolarEclipseInfo =
  lo_peak :: AstroTime
  lo_partial_begin :: "AstroTime option"
  lo_partial_end :: "AstroTime option"

record Astronomy =
  MakeTime :: "number \<Rightarrow> AstroTime"
  AddDays :: "AstroTime \<Rightarrow> number \<Rightarrow> AstroTime"
  SiderealTime :: "AstroTime \<Rightarrow> number"
  SunPosition :: "number \<Rightarrow> js_error + Equatorial"
  Equator :: "number \<Rightarrow> number \<Rightarrow> number \<Rightarrow> bool \<Rightarrow> js_error + Equatorial"
  SearchRiseSet :: "Body \<Rightarrow> Observer \<Rightarrow> int \<Rightarrow> AstroTime \<Rightarrow> number
                      \<Rightarrow> js_error + AstroTime option"
  MoonPhase :: "AstroTime \<Rightarrow> number"
  SearchMoonPhase :: "number \<Rightarrow> AstroTime \<Rightarrow> number \<Rightarrow> js_error + AstroTime option"
  SearchGlobalSolarEclipse :: "AstroTime \<Rightarrow> js_error + GlobalSolarEclipseInfo option"
  SearchLunarEclipse :: "AstroTime \<Rightarrow> js_error + LunarEclipseInfo option"
  SearchLocalSolarEclipse :: "AstroTime \<Rightarrow> Observer \<Rightarrow> js_error + LocalSolarEclipseInfo option"

definition MakeObserver :: "number \<Rightarrow> number \<Rightarrow> number \<Rightarrow> Observer" where
  "MakeObserver lat lon height =
     \<lparr> obs_latitude = lat, obs_longitude = lon, obs_height = height \<rparr>"

text \<open>
  What the services read from Luxon beyond the arithmetic on instants above: the wall
  clock and the local zone, the calendar fields and calendar arithmetic of a
  \<open>DateTime\<close> (they depend on the zone's rules), and what Luxon reports about a zone
  specifier.
  The wall clock is read as one value during one synchronous call.
\<close>

record Calendar =
  cal_year :: number
  cal_month :: number
  cal_day :: number
  cal_hour :: number
  cal_minute :: number
  cal_second :: number

record Luxon =
  now :: DateTime
  local_zone :: string
  calendar :: "DateTime \<Rightarrow> Calendar"
  startOf_day :: "DateTime \<Rightarrow> DateTime"
  plus_days :: "DateTime \<Rightarrow> number \<Rightarrow> DateTime"
  diff_days :: "DateTime \<Rightarrow> DateTime \<Rightarrow> number"
  offsetNameShort :: "string \<Rightarrow> string option"
  isInDST :: "string \<Rightarrow> bool"
  utc_zoneName :: "number \<Rightarrow> js_error + string option"

definition fromJSDate :: "Luxon \<Rightarrow> number \<Rightarrow> DateTime" where
  "fromJSDate L d = \<lparr> dt_ts = d, dt_zone = local_zone L \<rparr>"

definition toJSDate :: "DateTime \<Rightarrow> number" where
  "toJSDate dt = dt_ts dt"

text \<open>Everything outside the services: the two libraries and the build mode
  (\<open>process.env.NODE_ENV === 'test'\<close>), as they are during one synchronous call.\<close>

record Env =
  luxon :: Luxon
  astronomy :: Astronomy
  node_env_test :: bool

text \<open>\<open>a || b\<close> on a string that may be missing: the empty string is falsy too.\<close>

definition or_string :: "string option \<Rightarrow> string \<Rightarrow> string" where
  "or_string a b = (case a of None \<Rightarrow> b | Some s \<Rightarrow> if s = [] then b else s)"

text \<open>
  A subscriber is a function object; a service only compares it by identity and calls
  it. It is modelled by an identifier, and each call of it is recorded, in order, with
  the state it was given. A callback that throws or calls back into the service is
  outside the model.
\<close>

type_synonym callback = nat

section \<open>The location service\<close>

record LocationData =
  loc_latitude :: number
  loc_longitude :: number
  loc_altitude :: number
  loc_accuracy :: "number option"
  loc_timestamp :: "DateTime option"

record Cartesian =
  cart_x :: number
  cart_y :: number
  cart_z :: number

datatype hemisphere = N | S

record UTM =
  zone :: number
  easting :: number
  northing :: number
  hemisphere :: hemisphere

record CoordinateSystem =
  cs_latitude :: number
  cs_longitude :: number
  cs_altitude :: number
  cartesian :: Cartesian
  utm :: "UTM option"

record TimezoneInfo =
  tz_name :: string
  tz_abbreviation :: string
  tz_offset :: number
  isDST :: bool
  dstOffset :: "number option"

record SunPos =
  sun_azimuth :: number
  sun_altitude :: number
  sun_distance :: number

record MoonPos =
  moon_azimuth :: number
  moon_altitude :: number
  moon_distance :: number
  moon_phase :: number

record Twilight =
  civil :: "(DateTime \<times> DateTime) option"
  nautical :: "(DateTime \<times> DateTime) option"
  astronomical :: "(DateTime \<times> DateTime) option"

record AstronomicalPosition =
  sunPosition :: SunPos
  moonPosition :: MoonPos
  twilight :: Twilight
  ap_sunrise :: "DateTime option"
  ap_sunset :: "DateTime option"

record LocationServiceState =
  currentLocation :: "LocationData option"
  coordinateSystem :: "CoordinateSystem option"
  timezone :: "TimezoneInfo option"
  astronomicalPosition :: "AstronomicalPosition option"
  isGPSEnabled :: bool
  lastUpdate :: DateTime

text \<open>A continuation waiting behind an \<open>await\<close>: it runs after the current call returns.\<close>

datatype microtask = ResumeUpdateAstronomicalPosition "js_error + AstronomicalPosition"

record LocationServiceImpl =
  ls_state :: LocationServiceState
  ls_subscribers :: "callback list"
  watchId :: "nat option"
  ls_calls :: "(callback \<times> LocationServiceState) list"
  ls_microtasks :: "microtask list"

definition LocationService_new :: "Env \<Rightarrow> LocationServiceImpl" where
  "LocationService_new E =
     \<lparr> ls_state = \<lparr> currentLocation = None, coordinateSystem = None, timezone = None,
                     astronomicalPosition = None, isGPSEnabled = False,
                     lastUpdate = now (luxon E) \<rparr>,
       ls_subscribers = [], watchId = None, ls_calls = [], ls_microtasks = [] \<rparr>"

definition LocationService_notifySubscribers :: "LocationServiceImpl \<Rightarrow> LocationServiceImpl" where
  "LocationService_notifySubscribers svc =
     svc\<lparr>ls_calls := ls_calls svc @ map (\<lambda>cb. (cb, ls_state svc)) (ls_subscribers svc)\<rparr>"

text \<open>\<open>updateState\<close> takes a partial state; the model takes the function that overwrites
  the fields the partial state names.\<close>

definition updateState ::
  "Env \<Rightarrow> (LocationServiceState \<Rightarrow> LocationServiceState) \<Rightarrow> LocationServiceImpl
     \<Rightarrow> LocationServiceImpl" where
  "updateState E updates svc =
     LocationService_notifySubscribers
       (svc\<lparr>ls_state := (updates (ls_state svc))\<lparr>lastUpdate := now (luxon E)\<rparr>\<rparr>)"

text \<open>The program rounds every sum and quotient to a double; the model does not. The
  zone of the model is the zone of the program unless that rounding carries
  \<open>(lng + 180) / 6\<close> up to the next whole number, as it does for the doubles just below
  180: there the model gives zone 60 and the program zone 61. At a whole number of
  degrees the two agree.\<close>

definition calculateUTM :: "number \<Rightarrow> number \<Rightarrow> UTM option" where
  "calculateUTM lat lng =
     (let zone = Math_floor ((lng + 180) / 6) + 1;
          hemisphere = (if lat \<ge> 0 then N else S);
          latRad = (lat * pi) / 180;
          lngRad = (lng * pi) / 180;
          centralMeridian = ((zone - 1) * 6 - 180 + 3) * pi / 180;
          a = 6378137;
          k0 = 0.9996;
          deltaLng = lngRad - centralMeridian;
          easting = 500000 + k0 * a * deltaLng * cos latRad;
          northing = k0 * a * latRad + (if lat < 0 then 10000000 else 0)
      in Some \<lparr> zone = zone, easting = easting, northing = northing,
                 hemisphere = hemisphere \<rparr>)"

definition calculateCoordinateSystem :: "number \<Rightarrow> number \<Rightarrow> number \<Rightarrow> CoordinateSystem" where
  "calculateCoordinateSystem lat lng alt =
     (let R = 6378137;
          f = 1 / 298.257223563;
          e2 = 2 * f - f * f;
          latRad = (lat * pi) / 180;
          lngRad = (lng * pi) / 180;
          N' = R / sqrt (1 - e2 * sin latRad * sin latRad);
          x = (N' + alt) * cos latRad * cos lngRad;
          y = (N' + alt) * cos latRad * sin lngRad;
          z = (N' * (1 - e2) + alt) * sin latRad;
          utm = calculateUTM lat lng
      in \<lparr> cs_latitude = lat, cs_longitude = lng, cs_altitude = alt,
           cartesian = \<lparr> cart_x = x, cart_y = y, cart_z = z \<rparr>, utm = utm \<rparr>)"

text \<open>The zone specifier \<open>UTC+H:MM\<close> that \<open>calculateTimezone\<close> builds from the offset. The
  two numbers it prints are integral, since the offset is a whole number of hours.\<close>

definition zoneSpecifier :: "number \<Rightarrow> string" where
  "zoneSpecifier baseOffset =
     ''UTC'' @ (if baseOffset \<ge> 0 then ''+'' else [])
       @ int_toString \<lfloor>Math_floor (baseOffset / 60)\<rfloor> @ '':''
       @ padStart 2 (CHR ''0'') (int_toString \<lfloor>Math_abs (js_rem baseOffset 60)\<rfloor>)"

definition calculateTimezone :: "Env \<Rightarrow> number \<Rightarrow> number \<Rightarrow> TimezoneInfo" where
  "calculateTimezone E lat lng =
     (let baseOffset = Math_round (lng / 15) * 60;
          now_zone = zoneSpecifier baseOffset;
          timezoneName =
            (case utc_zoneName (luxon E) baseOffset of
               Inr zn \<Rightarrow> or_string zn ''UTC''
             | Inl err \<Rightarrow> zoneSpecifier baseOffset)
      in \<lparr> tz_name = timezoneName,
           tz_abbreviation = or_string (offsetNameShort (luxon E) now_zone) ''UTC'',
           tz_offset = baseOffset,
           isDST = isInDST (luxon E) now_zone,
           dstOffset = Some (if isInDST (luxon E) now_zone then 60 else 0) \<rparr>)"

text \<open>\<open>getAstronomicalPosition\<close> is declared \<open>async\<close> but awaits nothing: its body runs
  at the call, and the outcome is the settled promise.\<close>

definition getAstronomicalPosition ::
  "Env \<Rightarrow> DateTime option \<Rightarrow> LocationServiceImpl \<Rightarrow> js_error + AstronomicalPosition" where
  "getAstronomicalPosition E date svc =
     (case currentLocation (ls_state svc) of
        None \<Rightarrow> Inl (Error ''Location not set'')
      | Some loc \<Rightarrow>
          (let targetDate = (case date of Some d \<Rightarrow> d | None \<Rightarrow> now (luxon E));
               astroTime = MakeTime (astronomy E) (toJSDate targetDate);
               observer = \<lparr> obs_latitude = loc_latitude loc, obs_longitude = loc_longitude loc,
                            obs_height = loc_altitude loc / 1000 \<rparr>;
               sunPosition = \<lparr> sun_azimuth = 180, sun_altitude = 45, sun_distance = 1 \<rparr>;
               moonPosition = \<lparr> moon_azimuth = 90, moon_altitude = 30,
                                moon_distance = 384400, moon_phase = 0.5 \<rparr>;
               rise_set =
                 (case SearchRiseSet (astronomy E) Sun observer 1 astroTime 1 of
                    Inl err \<Rightarrow> (None, None)
                  | Inr riseSearch \<Rightarrow>
                      (case SearchRiseSet (astronomy E) Sun observer (- 1) astroTime 1 of
                         Inl err \<Rightarrow> (None, None)
                       | Inr setSearch \<Rightarrow>
                           (map_option (\<lambda>t. fromJSDate (luxon E) (at_date t)) riseSearch,
                            map_option (\<lambda>t. fromJSDate (luxon E) (at_date t)) setSearch)));
               twilight = \<lparr> civil = None, nautical = None, astronomical = None \<rparr>
           in Inr \<lparr> sunPosition = sunPosition, moonPosition = moonPosition,
                    twilight = twilight, ap_sunrise = fst rise_set,
                    ap_sunset = snd rise_set \<rparr>))"

text \<open>\<open>updateAstronomicalPosition\<close> up to its \<open>await\<close>: the position is computed at once,
  the state update waits as a microtask.\<close>

definition updateAstronomicalPosition ::
  "Env \<Rightarrow> DateTime option \<Rightarrow> LocationServiceImpl \<Rightarrow> LocationServiceImpl" where
  "updateAstronomicalPosition E date svc =
     (if currentLocation (ls_state svc) = None then svc
      else svc\<lparr>ls_microtasks := ls_microtasks svc
                  @ [ResumeUpdateAstronomicalPosition (getAstronomicalPosition E date svc)]\<rparr>)"

fun runMicrotask :: "Env \<Rightarrow> microtask \<Rightarrow> LocationServiceImpl \<Rightarrow> LocationServiceImpl" where
  "runMicrotask E (ResumeUpdateAstronomicalPosition (Inr ap)) svc =
     updateState E (\<lambda>s. s\<lparr>astronomicalPosition := Some ap\<rparr>) svc"
| "runMicrotask E (ResumeUpdateAstronomicalPosition (Inl err)) svc = svc"

text \<open>\<open>setLocation\<close> returns the outcome of the call (the exception thrown, or nothing)
  together with the service as the call leaves it.\<close>

definition setLocation ::
  "Env \<Rightarrow> number \<Rightarrow> number \<Rightarrow> number \<Rightarrow> LocationServiceImpl
     \<Rightarrow> (js_error + unit) \<times> LocationServiceImpl" where
  "setLocation E latitude longitude altitude svc =
     (if latitude < - 90 \<or> latitude > 90 then
        (Inl (Error ''Latitude must be between -90 and 90 degrees''), svc)
      else if longitude < - 180 \<or> longitude > 180 then
        (Inl (Error ''Longitude must be between -180 and 180 degrees''), svc)
      else
        (let location = \<lparr> loc_latitude = latitude, loc_longitude = longitude,
                           loc_altitude = altitude, loc_accuracy = None,
                           loc_timestamp = Some (now (luxon E)) \<rparr>;
             coordinateSystem' = calculateCoordinateSystem latitude longitude altitude;
             timezone' = calculateTimezone E latitude longitude;
             svc1 = updateState E
                      (\<lambda>s. s\<lparr>currentLocation := Some location,
                              coordinateSystem := Some coordinateSystem',
                              timezone := Some timezone'\<rparr>) svc
         in (Inr (),
             if \<not> node_env_test E then updateAstronomicalPosition E None svc1 else svc1)))"

definition getCoordinateSystem :: "LocationServiceImpl \<Rightarrow> CoordinateSystem option" where
  "getCoordinateSystem svc = coordinateSystem (ls_state svc)"

definition getTimezoneInfo :: "LocationServiceImpl \<Rightarrow> TimezoneInfo option" where
  "getTimezoneInfo svc = timezone (ls_state svc)"

text \<open>\<open>subscribe\<close> registers the callback and calls it; the function it returns is
  \<open>LocationService_unsubscribe\<close> of the same callback.\<close>

definition LocationService_subscribe ::
  "callback \<Rightarrow> LocationServiceImpl \<Rightarrow> LocationServiceImpl" where
  "LocationService_subscribe cb svc =
     (let svc1 = svc\<lparr>ls_subscribers := ls_subscribers svc @ [cb]\<rparr>
      in svc1\<lparr>ls_calls := ls_calls svc1 @ [(cb, ls_state svc1)]\<rparr>)"

definition LocationService_unsubscribe ::
  "callback \<Rightarrow> LocationServiceImpl \<Rightarrow> LocationServiceImpl" where
  "LocationService_unsubscribe cb svc =
     svc\<lparr>ls_subscribers := filter (\<lambda>c. c \<noteq> cb) (ls_subscribers svc)\<rparr>"

definition disableGPS :: "Env \<Rightarrow> LocationServiceImpl \<Rightarrow> LocationServiceImpl" where
  "disableGPS E svc = updateState E (\<lambda>s. s\<lparr>isGPSEnabled := False\<rparr>) (svc\<lparr>watchId := None\<rparr>)"

definition LocationService_destroy :: "Env \<Rightarrow> LocationServiceImpl \<Rightarrow> LocationServiceImpl" where
  "LocationService_destroy E svc = (disableGPS E svc)\<lparr>ls_subscribers := []\<rparr>"

section \<open>The time service\<close>

text \<open>
  The repository holds two versions of the time service. They agree on the state, the
  constructor, the timer, the setters and \<open>getCurrentTime\<close>, \<open>getUTCTime\<close> and
  \<open>dateTimeToJulianDate\<close>; they differ in \<open>getSolarTime\<close>, \<open>getSiderealTime\<close> and
  \<open>subscribe\<close>. The functions of the second version are named \<open>TimeService2_...\<close>.
\<close>

record TimeServiceState =
  currentTime :: DateTime
  ts_timezone :: string
  ts_offset :: number
  ts_longitude :: number
  ts_latitude :: number

record TimeServiceImpl =
  ts_state :: TimeServiceState
  ts_subscribers :: "callback list"
  intervalId :: "nat option"
  ts_calls :: "(callback \<times> TimeServiceState) list"

definition TimeService_notifySubscribers :: "TimeServiceImpl \<Rightarrow> TimeServiceImpl" where
  "TimeService_notifySubscribers svc =
     svc\<lparr>ts_calls := ts_calls svc @ map (\<lambda>cb. (cb, ts_state svc)) (ts_subscribers svc)\<rparr>"

text \<open>The constructor sets the state and starts the timer; \<open>startTimeUpdate_tick\<close> is what
  the timer runs every second.\<close>

definition TimeService_new :: "Env \<Rightarrow> TimeServiceImpl" where
  "TimeService_new E =
     \<lparr> ts_state = \<lparr> currentTime = now (luxon E),
                     ts_timezone = or_string (Some (local_zone (luxon E))) ''UTC'',
                     ts_offset = 0, ts_longitude = 0, ts_latitude = 0 \<rparr>,
       ts_subscribers = [], intervalId = Some 1, ts_calls = [] \<rparr>"

definition startTimeUpdate_tick :: "Env \<Rightarrow> TimeServiceImpl \<Rightarrow> TimeServiceImpl" where
  "startTimeUpdate_tick E svc =
     TimeService_notifySubscribers
       (svc\<lparr>ts_state := (ts_state svc)\<lparr>currentTime := now (luxon E)\<rparr>\<rparr>)"

definition getCurrentTime :: "TimeServiceImpl \<Rightarrow> DateTime" where
  "getCurrentTime svc = plus_minutes (currentTime (ts_state svc)) (ts_offset (ts_state svc))"

definition getUTCTime :: "TimeServiceImpl \<Rightarrow> DateTime" where
  "getUTCTime svc = toUTC (getCurrentTime svc)"

definition TimeService_getSolarTime :: "TimeServiceImpl \<Rightarrow> DateTime" where
  "TimeService_getSolarTime svc =
     (let currentTime = getCurrentTime svc;
          utcTime = toUTC currentTime;
          longitudeCorrection = ts_longitude (ts_state svc) * 4
      in plus_minutes utcTime longitudeCorrection)"

definition TimeService_getSiderealTime :: "Env \<Rightarrow> TimeServiceImpl \<Rightarrow> DateTime" where
  "TimeService_getSiderealTime E svc =
     (let currentTime = getCurrentTime svc;
          astroTime = MakeTime (astronomy E) (toJSDate currentTime);
          gst = SiderealTime (astronomy E) astroTime;
          lst = gst + (ts_longitude (ts_state svc) / 15);
          normalizedLst = js_rem (js_rem lst 24 + 24) 24;
          today = startOf_day (luxon E) currentTime;
          siderealTime = plus_hours today normalizedLst
      in siderealTime)"

definition dateTimeToJulianDate :: "Env \<Rightarrow> DateTime \<Rightarrow> number" where
  "dateTimeToJulianDate E dt =
     (let year = cal_year (calendar (luxon E) dt);
          month = cal_month (calendar (luxon E) dt);
          day = cal_day (calendar (luxon E) dt)
                + (cal_hour (calendar (luxon E) dt) + cal_minute (calendar (luxon E) dt) / 60
                   + cal_second (calendar (luxon E) dt) / 3600) / 24;
          a = Math_floor ((14 - month) / 12);
          y = year + 4800 - a;
          m = month + 12 * a - 3;
          jd = day + Math_floor ((153 * m + 2) / 5) + 365 * y + Math_floor (y / 4)
               - Math_floor (y / 100) + Math_floor (y / 400) - 32045
      in jd)"

text \<open>\<open>getSolarTime\<close> of the second version calls the ephemeris library twice, outside any
  \<open>try\<close>: what either call throws leaves \<open>getSolarTime\<close> as its own exception.\<close>

definition TimeService2_getSolarTime :: "Env \<Rightarrow> TimeServiceImpl \<Rightarrow> js_error + DateTime" where
  "TimeService2_getSolarTime E svc =
     (let currentTime = getCurrentTime svc;
          jd = dateTimeToJulianDate E currentTime
      in case SunPosition (astronomy E) jd of
           Inl err \<Rightarrow> Inl err
         | Inr sunPos \<Rightarrow>
             (case Equator (astronomy E) (eq_ra sunPos) (eq_dec sunPos) jd True of
                Inl err \<Rightarrow> Inl err
              | Inr eqPos \<Rightarrow>
                  (let eot = eq_ra eqPos * 24 / 360 - js_rem jd 1 * 24;
                       longCorrection = ts_longitude (ts_state svc) / 15;
                       totalCorrection = (eot + longCorrection) * 60
                   in Inr (plus_minutes currentTime totalCorrection))))"

definition TimeService2_getSiderealTime :: "TimeServiceImpl \<Rightarrow> DateTime" where
  "TimeService2_getSiderealTime svc = getCurrentTime svc"

definition setTimezone :: "string \<Rightarrow> TimeServiceImpl \<Rightarrow> TimeServiceImpl" where
  "setTimezone tz svc =
     TimeService_notifySubscribers (svc\<lparr>ts_state := (ts_state svc)\<lparr>ts_timezone := tz\<rparr>\<rparr>)"

definition setOffset :: "number \<Rightarrow> TimeServiceImpl \<Rightarrow> TimeServiceImpl" where
  "setOffset minutes svc =
     TimeService_notifySubscribers (svc\<lparr>ts_state := (ts_state svc)\<lparr>ts_offset := minutes\<rparr>\<rparr>)"

definition TimeService_setLocation :: "number \<Rightarrow> number \<Rightarrow> TimeServiceImpl \<Rightarrow> TimeServiceImpl" where
  "TimeService_setLocation latitude longitude svc =
     TimeService_notifySubscribers
       (svc\<lparr>ts_state := (ts_state svc)\<lparr>ts_latitude := latitude, ts_longitude := longitude\<rparr>\<rparr>)"

text \<open>\<open>subscribe\<close> of the first version registers the callback and calls it; that of the
  second version only registers it. Both return \<open>TimeService_unsubscribe\<close> of the callback.\<close>

definition TimeService_subscribe :: "callback \<Rightarrow> TimeServiceImpl \<Rightarrow> TimeServiceImpl" where
  "TimeService_subscribe cb svc =
     (let svc1 = svc\<lparr>ts_subscribers := ts_subscribers svc @ [cb]\<rparr>
      in svc1\<lparr>ts_calls := ts_calls svc1 @ [(cb, ts_state svc1)]\<rparr>)"

definition TimeService2_subscribe :: "callback \<Rightarrow> TimeServiceImpl \<Rightarrow> TimeServiceImpl" where
  "TimeService2_subscribe cb svc = svc\<lparr>ts_subscribers := ts_subscribers svc @ [cb]\<rparr>"

definition TimeService_unsubscribe :: "callback \<Rightarrow> TimeServiceImpl \<Rightarrow> TimeServiceImpl" where
  "TimeService_unsubscribe cb svc =
     svc\<lparr>ts_subscribers := filter (\<lambda>c. c \<noteq> cb) (ts_subscribers svc)\<rparr>"

text \<open>\<open>destroy\<close> clears the timer, so that no tick follows, and empties the list of
  subscribers; the field \<open>intervalId\<close> keeps its value.\<close>

definition TimeService_destroy :: "TimeServiceImpl \<Rightarrow> TimeServiceImpl" where
  "TimeService_destroy svc = svc\<lparr>ts_subscribers := []\<rparr>"

section \<open>The astronomical service\<close>

record LocationCoordinates =
  lc_latitude :: number
  lc_longitude :: number
  lc_altitude :: "number option"

record MoonPhase =
  phase :: number
  phaseName :: "string option"
  illumination :: number
  nextNewMoon :: DateTime
  nextFullMoon :: DateTime
  age :: number

datatype eclipse_type = solar | lunar

record EclipseEvent =
  ev_type :: eclipse_type
  ev_date :: DateTime
  ev_magnitude :: number
  ev_obscuration :: number
  ev_isVisible :: bool
  maxEclipseTime :: "DateTime option"
  duration :: "number option"

definition MOON_PHASE_NAMES :: "string list" where
  "MOON_PHASE_NAMES =
     [''New Moon'', ''Waxing Crescent'', ''First Quarter'', ''Waxing Gibbous'',
      ''Full Moon'', ''Waning Gibbous'', ''Last Quarter'', ''Waning Crescent'']"

text \<open>Reading an array at a number: \<open>undefined\<close> unless the number is an index of it.\<close>

definition array_get :: "'a list \<Rightarrow> number \<Rightarrow> 'a option" where
  "array_get xs i =
     (if i = of_int \<lfloor>i\<rfloor> \<and> 0 \<le> i \<and> i < of_nat (length xs) then Some (xs ! nat \<lfloor>i\<rfloor>) else None)"

definition dateTimeToAstronomyTime :: "Env \<Rightarrow> DateTime \<Rightarrow> AstroTime" where
  "dateTimeToAstronomyTime E dt = MakeTime (astronomy E) (toJSDate dt)"

definition astronomyTimeToDateTime :: "Env \<Rightarrow> AstroTime \<Rightarrow> DateTime" where
  "astronomyTimeToDateTime E t = fromJSDate (luxon E) (at_date t)"

definition findNextMoonPhase :: "Env \<Rightarrow> DateTime \<Rightarrow> number \<Rightarrow> DateTime" where
  "findNextMoonPhase E startTime targetPhase =
     (case SearchMoonPhase (astronomy E) targetPhase (dateTimeToAstronomyTime E startTime) 40 of
        Inr (Some searchResult) \<Rightarrow> astronomyTimeToDateTime E searchResult
      | Inr None \<Rightarrow> plus_days (luxon E) startTime 15
      | Inl err \<Rightarrow> plus_days (luxon E) startTime 15)"

definition findPreviousMoonPhase :: "Env \<Rightarrow> DateTime \<Rightarrow> number \<Rightarrow> DateTime" where
  "findPreviousMoonPhase E startTime targetPhase =
     (case SearchMoonPhase (astronomy E) targetPhase
             (dateTimeToAstronomyTime E (plus_days (luxon E) startTime (- 30))) 40 of
        Inr (Some searchResult) \<Rightarrow> astronomyTimeToDateTime E searchResult
      | Inr None \<Rightarrow> plus_days (luxon E) startTime (- 15)
      | Inl err \<Rightarrow> plus_days (luxon E) startTime (- 15))"

definition getMoonPhase :: "Env \<Rightarrow> DateTime \<Rightarrow> MoonPhase" where
  "getMoonPhase E time =
     (let astronomyTime = dateTimeToAstronomyTime E time;
          phase = Astronomy.MoonPhase (astronomy E) astronomyTime;
          illumination = (1 - cos (phase * 2 * pi)) * 50;
          phaseIndex = js_rem (Math_round (phase * 8)) 8;
          phaseName = array_get MOON_PHASE_NAMES phaseIndex;
          nextNewMoon = findNextMoonPhase E time 0;
          nextFullMoon = findNextMoonPhase E time 0.5;
          lastNewMoon = findPreviousMoonPhase E time 0;
          age = diff_days (luxon E) time lastNewMoon
      in \<lparr> phase = phase, phaseName = phaseName, illumination = illumination,
           nextNewMoon = nextNewMoon, nextFullMoon = nextFullMoon, age = age \<rparr>)"

text \<open>\<open>location.altitude || 0\<close>.\<close>

definition altitude_or_0 :: "LocationCoordinates \<Rightarrow> number" where
  "altitude_or_0 location = (case lc_altitude location of None \<Rightarrow> 0 | Some a \<Rightarrow> a)"

text \<open>Both \<open>process...\<close> functions return \<open>null\<close> (here \<open>None\<close>) when anything inside their
  \<open>try\<close> throws.\<close>

definition processSolarEclipse ::
  "Env \<Rightarrow> GlobalSolarEclipseInfo \<Rightarrow> LocationCoordinates \<Rightarrow> EclipseEvent option" where
  "processSolarEclipse E eclipse location =
     (let observer = MakeObserver (lc_latitude location) (lc_longitude location)
                       (altitude_or_0 location)
      in case SearchLocalSolarEclipse (astronomy E) (gs_peak eclipse) observer of
           Inl err \<Rightarrow> None
         | Inr None \<Rightarrow>
             Some \<lparr> ev_type = solar,
                    ev_date = astronomyTimeToDateTime E (gs_peak eclipse),
                    ev_magnitude = gs_obscuration eclipse,
                    ev_obscuration = gs_obscuration eclipse * 100,
                    ev_isVisible = False,
                    maxEclipseTime = None,
                    duration = None \<rparr>
         | Inr (Some localEclipse) \<Rightarrow>
             (case (lo_partial_end localEclipse, lo_partial_begin localEclipse) of
                (Some partial_end, Some partial_begin) \<Rightarrow>
                  Some \<lparr> ev_type = solar,
                         ev_date = astronomyTimeToDateTime E (gs_peak eclipse),
                         ev_magnitude = gs_obscuration eclipse,
                         ev_obscuration = gs_obscuration eclipse * 100,
                         ev_isVisible = True,
                         maxEclipseTime = Some (astronomyTimeToDateTime E (lo_peak localEclipse)),
                         duration = Some ((at_tt partial_end - at_tt partial_begin) * 24 * 60) \<rparr>
              | _ \<Rightarrow> None))"

definition processLunarEclipse ::
  "Env \<Rightarrow> LunarEclipseInfo \<Rightarrow> LocationCoordinates \<Rightarrow> EclipseEvent option" where
  "processLunarEclipse E eclipse location =
     (case (le_partial_end eclipse, le_partial_begin eclipse) of
        (Some partial_end, Some partial_begin) \<Rightarrow>
          Some \<lparr> ev_type = lunar,
                 ev_date = astronomyTimeToDateTime E (le_peak eclipse),
                 ev_magnitude = le_obscuration eclipse,
                 ev_obscuration = le_obscuration eclipse * 100,
                 ev_isVisible = True,
                 maxEclipseTime = Some (astronomyTimeToDateTime E (le_peak eclipse)),
                 duration = Some ((at_tt partial_end - at_tt partial_begin) * 24 * 60) \<rparr>
      | _ \<Rightarrow> None)"

text \<open>
  The two \<open>while\<close> loops of \<open>getUpcomingEclipses\<close>. Whether they end depends on what the
  library's searches return, so each takes fuel: one unit per iteration, and \<open>None\<close>
  when the fuel is used up before the loop has ended. Otherwise the result is the list
  \<open>eclipses\<close> as the loop leaves it.
\<close>

fun solarEclipseLoop ::
  "nat \<Rightarrow> Env \<Rightarrow> LocationCoordinates \<Rightarrow> AstroTime \<Rightarrow> AstroTime \<Rightarrow> EclipseEvent list
     \<Rightarrow> EclipseEvent list option" where
  "solarEclipseLoop 0 E location endTime searchTime eclipses = None"
| "solarEclipseLoop (Suc fuel) E location endTime searchTime eclipses =
     (if at_tt searchTime < at_tt endTime then
        (case SearchGlobalSolarEclipse (astronomy E) searchTime of
           Inl err \<Rightarrow> Some eclipses
         | Inr None \<Rightarrow> Some eclipses
         | Inr (Some solarEclipse) \<Rightarrow>
             if at_tt (gs_peak solarEclipse) < at_tt endTime then
               solarEclipseLoop fuel E location endTime
                 (AddDays (astronomy E) (gs_peak solarEclipse) 1)
                 (case processSolarEclipse E solarEclipse location of
                    Some eclipseEvent \<Rightarrow> eclipses @ [eclipseEvent]
                  | None \<Rightarrow> eclipses)
             else Some eclipses)
      else Some eclipses)"

fun lunarEclipseLoop ::
  "nat \<Rightarrow> Env \<Rightarrow> LocationCoordinates \<Rightarrow> AstroTime \<Rightarrow> AstroTime \<Rightarrow> EclipseEvent list
     \<Rightarrow> EclipseEvent list option" where
  "lunarEclipseLoop 0 E location endTime searchTime eclipses = None"
| "lunarEclipseLoop (Suc fuel) E location endTime searchTime eclipses =
     (if at_tt searchTime < at_tt endTime then
        (case SearchLunarEclipse (astronomy E) searchTime of
           Inl err \<Rightarrow> Some eclipses
         | Inr None \<Rightarrow> Some eclipses
         | Inr (Some lunarEclipse) \<Rightarrow>
             if at_tt (le_peak lunarEclipse) < at_tt endTime then
               lunarEclipseLoop fuel E location endTime
                 (AddDays (astronomy E) (le_peak lunarEclipse) 1)
                 (case processLunarEclipse E lunarEclipse location of
                    Some eclipseEvent \<Rightarrow> eclipses @ [eclipseEvent]
                  | None \<Rightarrow> eclipses)
             else Some eclipses)
      else Some eclipses)"

text \<open>\<open>Array.prototype.sort\<close> with the comparator \<open>a.date.toMillis() - b.date.toMillis()\<close>
  is a stable sort by that key.\<close>

definition getUpcomingEclipses ::
  "nat \<Rightarrow> Env \<Rightarrow> DateTime \<Rightarrow> LocationCoordinates \<Rightarrow> number \<Rightarrow> EclipseEvent list option" where
  "getUpcomingEclipses fuel E startTime location daysToSearch =
     (let astronomyStartTime = dateTimeToAstronomyTime E startTime;
          endTime = dateTimeToAstronomyTime E (plus_days (luxon E) startTime daysToSearch)
      in case solarEclipseLoop fuel E location endTime astronomyStartTime [] of
           None \<Rightarrow> None
         | Some eclipses1 \<Rightarrow>
             (case lunarEclipseLoop fuel E location endTime astronomyStartTime eclipses1 of
                None \<Rightarrow> None
              | Some eclipses2 \<Rightarrow> Some (sort_key (\<lambda>a. toMillis (ev_date a)) eclipses2)))"

section \<open>Concrete surroundings\<close>

text \<open>
  The surroundings of the services' test suite: the clock stands at noon UTC on
  21 June 2024, \<open>NODE_ENV\<close> is \<open>test\<close>, Luxon works in UTC and knows no daylight
  saving for a fixed offset, the ephemeris finds no rising, no phase and no eclipse,
  and its \<open>Equator\<close> throws on the arguments the second time service gives it.
\<close>

definition testLuxon :: Luxon where
  "testLuxon =
     \<lparr> now = \<lparr> dt_ts = 1718971200000, dt_zone = ''UTC'' \<rparr>,
       local_zone = ''UTC'',
       calendar = (\<lambda>dt. \<lparr> cal_year = 2024, cal_month = 6, cal_day = 21, cal_hour = 12,
                           cal_minute = 0, cal_second = 0 \<rparr>),
       startOf_day = (\<lambda>dt. dt\<lparr>dt_ts := of_int \<lfloor>dt_ts dt / 86400000\<rfloor> * 86400000\<rparr>),
       plus_days = (\<lambda>dt d. dt\<lparr>dt_ts := dt_ts dt + d * 86400000\<rparr>),
       diff_days = (\<lambda>a b. (dt_ts a - dt_ts b) / 86400000),
       offsetNameShort = (\<lambda>z. Some z),
       isInDST = (\<lambda>z. False),
       utc_zoneName = (\<lambda>m. Inr (Some ''UTC'')) \<rparr>"

definition testAstronomy :: Astronomy where
  "testAstronomy =
     \<lparr> MakeTime = (\<lambda>d. \<lparr> at_date = d, at_ut = d / 86400000, at_tt = d / 86400000 \<rparr>),
       AddDays = (\<lambda>t d. \<lparr> at_date = at_date t + d * 86400000, at_ut = at_ut t + d,
                           at_tt = at_tt t + d \<rparr>),
       SiderealTime = (\<lambda>t. 6),
       SunPosition = (\<lambda>jd. Inr \<lparr> eq_ra = 90, eq_dec = 23.4 \<rparr>),
       Equator = (\<lambda>ra dec jd ofdate. Inl (Error ''not a body'')),
       SearchRiseSet = (\<lambda>body obs dir t lim. Inr None),
       MoonPhase = (\<lambda>t. 0.5),
       SearchMoonPhase = (\<lambda>target t lim. Inr None),
       SearchGlobalSolarEclipse = (\<lambda>t. Inl (Error ''no eclipse'')),
       SearchLunarEclipse = (\<lambda>t. Inl (Error ''no eclipse'')),
       SearchLocalSolarEclipse = (\<lambda>t obs. Inr None) \<rparr>"

definition testEnv :: Env where
  "testEnv = \<lparr> luxon = testLuxon, astronomy = testAstronomy, node_env_test = True \<rparr>"

text \<open>A location service with one subscriber (callback 1) that has been given New York.\<close>

definition observedService :: LocationServiceImpl where
  "observedService =
     snd (setLocation testEnv 40.7128 (- 74.0060) 0
            (LocationService_subscribe 1 (LocationService_new testEnv)))"

text \<open>
  An ephemeris that knows the six eclipses between September 2024 and September 2025,
  by their day since the epoch: lunar on day 19984, 20161 and 20338, solar on day 19998,
  20176 and 20353. A search returns the first of them that is not before the time it is
  given, and throws when there is none left. A solar eclipse is seen from the northern
  hemisphere only. The time of the library is the day count, on all three scales.
\<close>

definition dayTime :: "number \<Rightarrow> AstroTime" where
  "dayTime d = \<lparr> at_date = d * 86400000, at_ut = d, at_tt = d \<rparr>"

definition eclipseAstronomy :: Astronomy where
  "eclipseAstronomy = testAstronomy
     \<lparr> SearchGlobalSolarEclipse :=
         (\<lambda>t. if at_tt t \<le> 19998 then
                Inr (Some \<lparr> gs_peak = dayTime 19998, gs_obscuration = 0.93 \<rparr>)
              else if at_tt t \<le> 20176 then
                Inr (Some \<lparr> gs_peak = dayTime 20176, gs_obscuration = 0.94 \<rparr>)
              else if at_tt t \<le> 20353 then
                Inr (Some \<lparr> gs_peak = dayTime 20353, gs_obscuration = 0.86 \<rparr>)
              else Inl (Error ''no eclipse found'')),
       SearchLunarEclipse :=
         (\<lambda>t. if at_tt t \<le> 19984 then
                Inr (Some \<lparr> le_peak = dayTime 19984, le_obscuration = 0.08,
                            le_partial_begin = Some (dayTime 19983.97),
                            le_partial_end = Some (dayTime 19984.03) \<rparr>)
              else if at_tt t \<le> 20161 then
                Inr (Some \<lparr> le_peak = dayTime 20161, le_obscuration = 1,
                            le_partial_begin = Some (dayTime 20160.92),
                            le_partial_end = Some (dayTime 20161.08) \<rparr>)
              else if at_tt t \<le> 20338 then
                Inr (Some \<lparr> le_peak = dayTime 20338, le_obscuration = 1,
                            le_partial_begin = Some (dayTime 20337.92),
                            le_partial_end = Some (dayTime 20338.08) \<rparr>)
              else Inl (Error ''no eclipse found'')),
       SearchLocalSolarEclipse :=
         (\<lambda>t obs. if obs_latitude obs \<ge> 0 then
                    Inr (Some \<lparr> lo_peak = t,
                                lo_partial_begin = Some (dayTime (at_tt t - 0.05)),
                                lo_partial_end = Some (dayTime (at_tt t + 0.05)) \<rparr>)
                  else Inr None) \<rparr>"

definition eclipseEnv :: Env where
  "eclipseEnv = \<lparr> luxon = testLuxon, astronomy = eclipseAstronomy, node_env_test = True \<rparr>"

definition newYork :: LocationCoordinates where
  "newYork = \<lparr> lc_latitude = 40.7128, lc_longitude = - 74.0060, lc_altitude = Some 0 \<rparr>"

definition sydney :: LocationCoordinates where
  "sydney = \<lparr> lc_latitude = - 33.8688, lc_longitude = 151.2093, lc_altitude = None \<rparr>"

text \<open>A time service that has been given the observatory at Greenwich.\<close>

definition greenwich :: TimeServiceImpl where
  "greenwich = TimeService_setLocation 0 0 (TimeService_new testEnv)"

section \<open>Properties of the location service\<close>

lemma setLocation_throws:
  "latitude < - 90 \<or> latitude > 90 \<or> longitude < - 180 \<or> longitude > 180 \<Longrightarrow>
     snd (setLocation E latitude longitude altitude svc) = svc
     \<and> (\<exists>msg. fst (setLocation E latitude longitude altitude svc) = Inl (Error msg))"
  by (auto simp: setLocation_def)

lemma setLocation_state:
  assumes "- 90 \<le> latitude" "latitude \<le> 90" "- 180 \<le> longitude" "longitude \<le> 180"
  shows "ls_state (snd (setLocation E latitude longitude altitude svc)) =
           (ls_state svc)
             \<lparr> currentLocation :=
                 Some \<lparr> loc_latitude = latitude, loc_longitude = longitude,
                        loc_altitude = altitude, loc_accuracy = None,
                        loc_timestamp = Some (now (luxon E)) \<rparr>,
               coordinateSystem := Some (calculateCoordinateSystem latitude longitude altitude),
               timezone := Some (calculateTimezone E latitude longitude),
               lastUpdate := now (luxon E) \<rparr>"
    and "fst (setLocation E latitude longitude altitude svc) = Inr ()"
  using assms
  by (simp_all add: setLocation_def Let_def updateState_def
        LocationService_notifySubscribers_def updateAstronomicalPosition_def)

text \<open>
  C1. Whenever the latitude is outside [-90, 90] or the longitude outside [-180, 180],
  \<open>setLocation\<close> throws an error at once; whenever both are in range it returns normally
  and the location it stores carries the latitude and longitude it was given, unchanged.
\<close>

theorem setLocation_validates:
  "(latitude \<notin> {- 90 .. 90} \<or> longitude \<notin> {- 180 .. 180} \<longrightarrow>
      (\<exists>msg. fst (setLocation E latitude longitude altitude svc) = Inl (Error msg)))
   \<and> (latitude \<in> {- 90 .. 90} \<and> longitude \<in> {- 180 .. 180} \<longrightarrow>
        fst (setLocation E latitude longitude altitude svc) = Inr ()
        \<and> map_option loc_latitude
            (currentLocation (ls_state (snd (setLocation E latitude longitude altitude svc))))
            = Some latitude
        \<and> map_option loc_longitude
            (currentLocation (ls_state (snd (setLocation E latitude longitude altitude svc))))
            = Some longitude)"
proof (intro conjI impI)
  assume "latitude \<notin> {- 90 .. 90} \<or> longitude \<notin> {- 180 .. 180}"
  then have "latitude < - 90 \<or> latitude > 90 \<or> longitude < - 180 \<or> longitude > 180"
    by auto
  then show "\<exists>msg. fst (setLocation E latitude longitude altitude svc) = Inl (Error msg)"
    using setLocation_throws by blast
next
  assume "latitude \<in> {- 90 .. 90} \<and> longitude \<in> {- 180 .. 180}"
  then have r: "- 90 \<le> latitude" "latitude \<le> 90" "- 180 \<le> longitude" "longitude \<le> 180"
    by auto
  show "fst (setLocation E latitude longitude altitude svc) = Inr ()"
    by (rule setLocation_state(2) [OF r])
  show "map_option loc_latitude
          (currentLocation (ls_state (snd (setLocation E latitude longitude altitude svc))))
          = Some latitude"
    by (simp add: setLocation_state(1) [OF r])
  show "map_option loc_longitude
          (currentLocation (ls_state (snd (setLocation E latitude longitude altitude svc))))
          = Some longitude"
    by (simp add: setLocation_state(1) [OF r])
qed

theorem setLocation_validates_witness:
  "(\<exists>msg. fst (setLocation testEnv 91 0 0 (LocationService_new testEnv)) = Inl (Error msg))
   \<and> (\<exists>msg. fst (setLocation testEnv 0 (- 181) 0 (LocationService_new testEnv)) = Inl (Error msg))
   \<and> fst (setLocation testEnv 40.7128 (- 74.0060) 0 (LocationService_new testEnv)) = Inr ()
   \<and> map_option loc_latitude (currentLocation (ls_state (snd
         (setLocation testEnv 40.7128 (- 74.0060) 0 (LocationService_new testEnv)))))
       = Some 40.7128"
  using setLocation_validates [where latitude = 91 and longitude = 0 and E = testEnv
          and altitude = 0 and svc = "LocationService_new testEnv"]
        setLocation_validates [where latitude = 0 and longitude = "- 181" and E = testEnv
          and altitude = 0 and svc = "LocationService_new testEnv"]
        setLocation_validates [where latitude = "40.7128" and longitude = "- 74.0060"
          and E = testEnv and altitude = 0 and svc = "LocationService_new testEnv"]
  by simp

text \<open>Where \<open>setLocation\<close> returns, the UTM hemisphere it stores is N exactly when the
  latitude is not negative.\<close>

lemma setLocation_utm_hemisphere:
  assumes "- 90 \<le> latitude" "latitude \<le> 90" "- 180 \<le> longitude" "longitude \<le> 180"
  shows "map_option hemisphere
           (Option.bind (getCoordinateSystem (snd (setLocation E latitude longitude altitude svc)))
              utm)
         = Some (if latitude \<ge> 0 then N else S)"
  by (simp add: getCoordinateSystem_def setLocation_state(1) [OF assms]
        calculateCoordinateSystem_def calculateUTM_def Let_def)

text \<open>
  C2. The zone is not always in [1, 60]: at longitude 180, which \<open>setLocation\<close> accepts,
  the zone stored is floor((180 + 180) / 6) + 1 = 61, and there is no UTM zone 61. Every
  step of that computation is exact in double arithmetic as well (360, 60, 61).
\<close>

theorem setLocation_utm_zone_61:
  "map_option zone
     (Option.bind (getCoordinateSystem (snd (setLocation testEnv 0 180 0
        (LocationService_new testEnv)))) utm) = Some 61"
  by (simp add: getCoordinateSystem_def setLocation_state(1) calculateCoordinateSystem_def
        calculateUTM_def Let_def Math_floor_def)

lemma Math_round_bounds:
  assumes "- 12 \<le> v" "v \<le> 12"
  shows "- 12 \<le> Math_round v" and "Math_round v \<le> 12"
proof -
  have "- 12 \<le> \<lfloor>v + 1 / 2\<rfloor>" using assms(1) by (simp add: le_floor_iff)
  then have "(of_int (- 12) :: real) \<le> of_int \<lfloor>v + 1 / 2\<rfloor>" by (simp only: of_int_le_iff)
  then show "- 12 \<le> Math_round v" by (simp add: Math_round_def)
  have "v + 1 / 2 < 13" using assms(2) by simp
  then have "\<lfloor>v + 1 / 2\<rfloor> < 13" by (simp add: floor_less_iff)
  then have "\<lfloor>v + 1 / 2\<rfloor> \<le> 12" by simp
  then have "(of_int \<lfloor>v + 1 / 2\<rfloor> :: real) \<le> of_int 12" by (simp only: of_int_le_iff)
  then show "Math_round v \<le> 12" by (simp add: Math_round_def)
qed

text \<open>
  C5. For every longitude in [-180, 180] that \<open>setLocation\<close> accepts (with a latitude in
  range), the offset of the timezone it stores is round(longitude / 15) times 60
  minutes, a multiple of 60 that lies in [-720, 840]. For New York it is -300
  minutes and for Tokyo +540 minutes.
\<close>

theorem setLocation_timezone_offset:
  assumes "latitude \<in> {- 90 .. 90}" and "longitude \<in> {- 180 .. 180}"
  shows "\<exists>tz. getTimezoneInfo (snd (setLocation E latitude longitude altitude svc)) = Some tz
           \<and> tz_offset tz = of_int (round (longitude / 15)) * 60
           \<and> (\<exists>k::int. tz_offset tz = of_int k * 60)
           \<and> - 720 \<le> tz_offset tz \<and> tz_offset tz \<le> 840"
proof -
  from assms have r: "- 90 \<le> latitude" "latitude \<le> 90" "- 180 \<le> longitude" "longitude \<le> 180"
    by auto
  let ?tz = "calculateTimezone E latitude longitude"
  have tz: "getTimezoneInfo (snd (setLocation E latitude longitude altitude svc)) = Some ?tz"
    by (simp add: getTimezoneInfo_def setLocation_state(1) [OF r])
  have off: "tz_offset ?tz = Math_round (longitude / 15) * 60"
    by (simp add: calculateTimezone_def Let_def)
  have rnd: "tz_offset ?tz = of_int (round (longitude / 15)) * 60"
    by (simp add: off Math_round_def round_def)
  have "- 12 \<le> longitude / 15" "longitude / 15 \<le> 12" using r by simp_all
  from Math_round_bounds [OF this]
  have "- 720 \<le> tz_offset ?tz" "tz_offset ?tz \<le> 840" by (simp_all add: off)
  moreover have "\<exists>k::int. tz_offset ?tz = of_int k * 60" using rnd by blast
  ultimately show ?thesis using tz rnd by blast
qed

theorem setLocation_timezone_offset_witness:
  "(\<exists>tz. getTimezoneInfo (snd (setLocation testEnv 40.7128 (- 74.0060) 0
             (LocationService_new testEnv))) = Some tz \<and> tz_offset tz = - 300)
   \<and> (\<exists>tz. getTimezoneInfo (snd (setLocation testEnv 35.6762 139.6503 0
             (LocationService_new testEnv))) = Some tz \<and> tz_offset tz = 540)"
proof -
  have "round (- 74.0060 / 15 :: real) = - 5" "round (139.6503 / 15 :: real) = 9"
    by (simp_all add: round_def)
  then show ?thesis
  using setLocation_timezone_offset [where latitude = "40.7128" and longitude = "- 74.0060"
          and E = testEnv and altitude = 0 and svc = "LocationService_new testEnv"]
        setLocation_timezone_offset [where latitude = "35.6762" and longitude = "139.6503"
          and E = testEnv and altitude = 0 and svc = "LocationService_new testEnv"]
  by auto
qed

lemma observedService_state:
  "map_option loc_latitude (currentLocation (ls_state observedService)) = Some 40.7128"
  "ls_subscribers observedService = [1]"
  "length (ls_calls observedService) = 2"
  by (simp_all add: observedService_def setLocation_def Let_def updateState_def
       LocationService_notifySubscribers_def LocationService_subscribe_def
       LocationService_new_def testEnv_def)

text \<open>
  C9. When the latitude or the longitude is out of range, \<open>setLocation\<close> throws before
  it changes anything: the current location, the coordinate system and the timezone
  keep their values, no subscriber is called, and the whole service is as it was.
\<close>

theorem setLocation_rejects_atomically:
  assumes "latitude \<notin> {- 90 .. 90} \<or> longitude \<notin> {- 180 .. 180}"
  shows "(\<exists>msg. fst (setLocation E latitude longitude altitude svc) = Inl (Error msg))
         \<and> currentLocation (ls_state (snd (setLocation E latitude longitude altitude svc)))
             = currentLocation (ls_state svc)
         \<and> coordinateSystem (ls_state (snd (setLocation E latitude longitude altitude svc)))
             = coordinateSystem (ls_state svc)
         \<and> timezone (ls_state (snd (setLocation E latitude longitude altitude svc)))
             = timezone (ls_state svc)
         \<and> ls_calls (snd (setLocation E latitude longitude altitude svc)) = ls_calls svc
         \<and> snd (setLocation E latitude longitude altitude svc) = svc"
proof -
  from assms have "latitude < - 90 \<or> latitude > 90 \<or> longitude < - 180 \<or> longitude > 180"
    by auto
  from setLocation_throws [OF this] show ?thesis by simp
qed

theorem setLocation_rejects_atomically_witness:
  "(\<exists>msg. fst (setLocation testEnv 91 0 0 observedService) = Inl (Error msg))
   \<and> map_option loc_latitude
       (currentLocation (ls_state (snd (setLocation testEnv 91 0 0 observedService))))
       = Some 40.7128
   \<and> length (ls_calls (snd (setLocation testEnv 91 0 0 observedService))) = 2
   \<and> ls_subscribers (snd (setLocation testEnv 91 0 0 observedService)) = [1]"
  using setLocation_rejects_atomically [where latitude = 91 and longitude = 0
          and E = testEnv and altitude = 0 and svc = observedService]
  by (simp add: observedService_state)

section \<open>Properties of the time service\<close>

subsection \<open>The remainder operator\<close>

lemma js_rem_nonneg:
  assumes "0 \<le> a" "0 < b"
  shows "0 \<le> js_rem a b" and "js_rem a b < b"
proof -
  have q: "0 \<le> a / b" using assms by simp
  have eq: "js_rem a b = b * (a / b - of_int \<lfloor>a / b\<rfloor>)"
    using assms q by (simp add: js_rem_def js_trunc_def algebra_simps)
  have "0 \<le> a / b - of_int \<lfloor>a / b\<rfloor>" by simp
  then show "0 \<le> js_rem a b" using assms(2) by (simp add: eq)
  have "a / b - of_int \<lfloor>a / b\<rfloor> < 1" by linarith
  then have "b * (a / b - of_int \<lfloor>a / b\<rfloor>) < b * 1"
    using assms(2) by (simp only: mult_less_cancel_left_pos)
  then show "js_rem a b < b" by (simp add: eq)
qed

lemma js_rem_gt_minus:
  assumes "0 < b"
  shows "- b < js_rem a b"
proof (cases "0 \<le> a")
  case True
  then have "0 \<le> js_rem a b" using assms by (rule js_rem_nonneg(1))
  then show ?thesis using assms by linarith
next
  case False
  then have q: "\<not> 0 \<le> a / b" using assms by (simp add: divide_less_0_iff not_le)
  have eq: "js_rem a b = b * (a / b - of_int \<lceil>a / b\<rceil>)"
    using assms q by (simp add: js_rem_def js_trunc_def algebra_simps)
  have "- 1 < a / b - of_int \<lceil>a / b\<rceil>" by linarith
  then have "b * (- 1) < b * (a / b - of_int \<lceil>a / b\<rceil>)"
    using assms by (simp only: mult_less_cancel_left_pos)
  then show ?thesis by (simp add: eq)
qed

lemma js_rem_shift: "\<exists>k::int. js_rem a b = a + b * of_int k"
proof -
  have "js_rem a b = a + b * of_int (- js_trunc (a / b))" by (simp add: js_rem_def)
  then show ?thesis by blast
qed

lemma normalize_hours:
  fixes lst :: real
  shows "0 \<le> js_rem (js_rem lst 24 + 24) 24" and "js_rem (js_rem lst 24 + 24) 24 < 24"
    and "\<exists>k::int. js_rem (js_rem lst 24 + 24) 24 = lst + 24 * of_int k"
proof -
  have "- 24 < js_rem lst 24" using js_rem_gt_minus [of 24 lst] by simp
  then have pos: "0 \<le> js_rem lst 24 + 24" by simp
  show "0 \<le> js_rem (js_rem lst 24 + 24) 24" using js_rem_nonneg(1) [OF pos] by simp
  show "js_rem (js_rem lst 24 + 24) 24 < 24" using js_rem_nonneg(2) [OF pos, of 24] by simp
  obtain k1 :: int where k1: "js_rem lst 24 = lst + 24 * of_int k1"
    using js_rem_shift by blast
  obtain k2 :: int where k2: "js_rem (js_rem lst 24 + 24) 24 = js_rem lst 24 + 24 + 24 * of_int k2"
    using js_rem_shift by blast
  have "js_rem (js_rem lst 24 + 24) 24 = lst + 24 * of_int k1 + 24 + 24 * of_int k2"
    using k1 k2 by linarith
  then have "js_rem (js_rem lst 24 + 24) 24 = lst + 24 * of_int (k1 + 1 + k2)"
    by simp
  then show "\<exists>k::int. js_rem (js_rem lst 24 + 24) 24 = lst + 24 * of_int k" by blast
qed

subsection \<open>Solar time\<close>

lemma testEnv_fields:
  "luxon testEnv = testLuxon" "astronomy testEnv = testAstronomy" "node_env_test testEnv"
  by (simp_all add: testEnv_def)

text \<open>
  C3, as the code has it. \<open>getSolarTime\<close> of the first version applies no equation of
  time: for every stored longitude its result is UTC time plus longitude / 15 hours (four
  minutes a degree), shown in UTC. So at longitude 0 it is UTC time itself, and at 15
  degrees east it is UTC time plus one hour.
\<close>

theorem getSolarTime_longitude:
  "dt_ts (TimeService_getSolarTime svc)
     = dt_ts (getUTCTime svc) + ts_longitude (ts_state svc) / 15 * 3600000
   \<and> dt_zone (TimeService_getSolarTime svc) = ''UTC''
   \<and> TimeService_getSolarTime (TimeService_setLocation latitude 0 svc)
       = getUTCTime (TimeService_setLocation latitude 0 svc)
   \<and> dt_ts (TimeService_getSolarTime (TimeService_setLocation latitude 15 svc))
       = dt_ts (getUTCTime (TimeService_setLocation latitude 15 svc)) + 1 * 3600000"
proof (intro conjI)
  show "dt_ts (TimeService_getSolarTime svc)
     = dt_ts (getUTCTime svc) + ts_longitude (ts_state svc) / 15 * 3600000"
    by (simp add: TimeService_getSolarTime_def Let_def getUTCTime_def plus_minutes_def
          toUTC_def)
  show "dt_zone (TimeService_getSolarTime svc) = ''UTC''"
    by (simp add: TimeService_getSolarTime_def Let_def plus_minutes_def toUTC_def)
  show "TimeService_getSolarTime (TimeService_setLocation latitude 0 svc)
       = getUTCTime (TimeService_setLocation latitude 0 svc)"
    by (simp add: TimeService_getSolarTime_def Let_def getUTCTime_def plus_minutes_def
          TimeService_setLocation_def TimeService_notifySubscribers_def)
  show "dt_ts (TimeService_getSolarTime (TimeService_setLocation latitude 15 svc))
       = dt_ts (getUTCTime (TimeService_setLocation latitude 15 svc)) + 1 * 3600000"
    by (simp add: TimeService_getSolarTime_def Let_def getUTCTime_def plus_minutes_def
          toUTC_def TimeService_setLocation_def TimeService_notifySubscribers_def)
qed

text \<open>
  At Greenwich the first version returns UTC time itself at noon of 21 June 2024, and
  again 135 days later, at noon of 3 November 2024, when the equation of time is at its
  largest in the year (about 16 minutes): no correction is added to UTC time on either
  day.
\<close>

theorem getSolarTime_equation_of_time_counterexample:
  "TimeService_getSolarTime greenwich = getUTCTime greenwich
   \<and> dt_ts (getUTCTime greenwich) = 1718971200000
   \<and> TimeService_getSolarTime (setOffset (135 * 1440) greenwich)
       = getUTCTime (setOffset (135 * 1440) greenwich)
   \<and> dt_ts (getUTCTime (setOffset (135 * 1440) greenwich)) = 1730635200000"
  by (simp add: TimeService_getSolarTime_def Let_def greenwich_def TimeService_setLocation_def
        setOffset_def TimeService_notifySubscribers_def TimeService_new_def getUTCTime_def
        getCurrentTime_def plus_minutes_def toUTC_def testEnv_fields testLuxon_def)

text \<open>What the library throws inside \<open>getSolarTime\<close> of the second version, the caller
  of \<open>getSolarTime\<close> gets.\<close>

lemma TimeService2_getSolarTime_throws:
  "SunPosition (astronomy E) (dateTimeToJulianDate E (getCurrentTime svc)) = Inl err \<Longrightarrow>
     TimeService2_getSolarTime E svc = Inl err"
  "SunPosition (astronomy E) (dateTimeToJulianDate E (getCurrentTime svc)) = Inr sunPos \<Longrightarrow>
   Equator (astronomy E) (eq_ra sunPos) (eq_dec sunPos)
     (dateTimeToJulianDate E (getCurrentTime svc)) True = Inl err \<Longrightarrow>
     TimeService2_getSolarTime E svc = Inl err"
  by (simp_all add: TimeService2_getSolarTime_def Let_def)

subsection \<open>Sidereal time\<close>

text \<open>
  C7. \<open>getSiderealTime\<close> of the first version returns the start of the current day (local
  midnight, as Luxon's \<open>startOf('day')\<close> gives it for the current time) plus \<open>h\<close> hours,
  where \<open>0 \<le> h < 24\<close> and \<open>h\<close> differs from the Greenwich sidereal time plus
  longitude / 15 by a whole multiple of 24.
\<close>

theorem getSiderealTime_local_sidereal:
  "\<exists>h. TimeService_getSiderealTime E svc
          = plus_hours (startOf_day (luxon E) (getCurrentTime svc)) h
       \<and> 0 \<le> h \<and> h < 24
       \<and> (\<exists>k::int. h = SiderealTime (astronomy E)
                          (MakeTime (astronomy E) (toJSDate (getCurrentTime svc)))
                        + ts_longitude (ts_state svc) / 15 + 24 * of_int k)"
proof -
  let ?lst = "SiderealTime (astronomy E) (MakeTime (astronomy E) (toJSDate (getCurrentTime svc)))
                + ts_longitude (ts_state svc) / 15"
  let ?h = "js_rem (js_rem ?lst 24 + 24) 24"
  have "TimeService_getSiderealTime E svc
          = plus_hours (startOf_day (luxon E) (getCurrentTime svc)) ?h"
    by (simp add: TimeService_getSiderealTime_def Let_def)
  moreover have "0 \<le> ?h" "?h < 24" by (rule normalize_hours)+
  moreover have "\<exists>k::int. ?h = ?lst + 24 * of_int k" by (rule normalize_hours(3))
  ultimately show ?thesis by blast
qed

text \<open>At longitude 105 degrees west, with a Greenwich sidereal time of 6 h, the local
  sidereal time is 23 h, not -1 h.\<close>

lemma getSiderealTime_example:
  "TimeService_getSiderealTime testEnv
     (TimeService_setLocation 0 (- 105) (TimeService_new testEnv))
   = \<lparr> dt_ts = 1718928000000 + 23 * 3600000, dt_zone = ''UTC'' \<rparr>"
  by (simp add: TimeService_getSiderealTime_def Let_def TimeService_setLocation_def
        TimeService_notifySubscribers_def TimeService_new_def testEnv_def testLuxon_def
        testAstronomy_def getCurrentTime_def plus_minutes_def plus_hours_def toJSDate_def
        js_rem_def js_trunc_def ceiling_def)

subsection \<open>Subscribers\<close>

lemma LocationService_subscribe_calls_immediately:
  "ls_calls (LocationService_subscribe cb svc) = ls_calls svc @ [(cb, ls_state svc)]"
  by (simp add: LocationService_subscribe_def Let_def)

lemma TimeService_subscribe_calls_immediately:
  "ts_calls (TimeService_subscribe cb svc) = ts_calls svc @ [(cb, ts_state svc)]"
  by (simp add: TimeService_subscribe_def Let_def)

lemma TimeService_notifySubscribers_calls:
  "ts_calls (TimeService_notifySubscribers svc)
     = ts_calls svc @ map (\<lambda>cb. (cb, ts_state svc)) (ts_subscribers svc)"
  by (simp add: TimeService_notifySubscribers_def)

lemma TimeService_mutations_notify:
  "ts_calls (setTimezone tz svc)
     = ts_calls svc @ map (\<lambda>cb. (cb, ts_state (setTimezone tz svc))) (ts_subscribers svc)"
  "ts_calls (setOffset minutes svc)
     = ts_calls svc @ map (\<lambda>cb. (cb, ts_state (setOffset minutes svc))) (ts_subscribers svc)"
  "ts_calls (TimeService_setLocation latitude longitude svc)
     = ts_calls svc @ map (\<lambda>cb. (cb, ts_state (TimeService_setLocation latitude longitude svc)))
         (ts_subscribers svc)"
  "ts_calls (startTimeUpdate_tick E svc)
     = ts_calls svc @ map (\<lambda>cb. (cb, ts_state (startTimeUpdate_tick E svc))) (ts_subscribers svc)"
  by (simp_all add: setTimezone_def setOffset_def TimeService_setLocation_def
        startTimeUpdate_tick_def TimeService_notifySubscribers_def)

lemma TimeService_subscribe_registers:
  "ts_subscribers (TimeService_subscribe cb svc) = ts_subscribers svc @ [cb]"
  "ts_subscribers (TimeService2_subscribe cb svc) = ts_subscribers svc @ [cb]"
  by (simp_all add: TimeService_subscribe_def TimeService2_subscribe_def Let_def)

lemma LocationService_subscribe_registers:
  "ls_subscribers (LocationService_subscribe cb svc) = ls_subscribers svc @ [cb]"
  by (simp add: LocationService_subscribe_def Let_def)

lemma TimeService_unsubscribe_removes:
  "cb \<notin> set (ts_subscribers (TimeService_unsubscribe cb svc))"
  by (simp add: TimeService_unsubscribe_def)

lemma updateState_calls_subscribers:
  "ls_calls (updateState E u svc)
     = ls_calls svc @ map (\<lambda>cb. (cb, ls_state (updateState E u svc))) (ls_subscribers svc)"
  by (simp add: updateState_def LocationService_notifySubscribers_def)

lemma LocationService_unsubscribe_removes:
  "cb \<notin> set (ls_subscribers (LocationService_unsubscribe cb svc))"
  by (simp add: LocationService_unsubscribe_def)

text \<open>
  C8. \<open>subscribe\<close> of the second version of the time service registers the callback and
  does not call it: on a new service no callback has been called when it returns, while
  \<open>subscribe\<close> of the first version has called it once with the current state.
\<close>

theorem TimeService2_subscribe_never_calls:
  "ts_calls (TimeService2_subscribe 1 (TimeService_new testEnv)) = []
   \<and> ts_calls (TimeService_subscribe 1 (TimeService_new testEnv))
       = [(1, ts_state (TimeService_new testEnv))]"
  by (simp add: TimeService2_subscribe_def TimeService_subscribe_def Let_def TimeService_new_def)

section \<open>Properties of the astronomical service\<close>

lemma percent_bounds:
  fixes c :: real
  assumes "- 1 \<le> c" "c \<le> 1"
  shows "0 \<le> (1 - c) * 50" and "(1 - c) * 50 \<le> 100"
  using assms by simp_all

text \<open>
  C4. In the structure \<open>getMoonPhase\<close> returns, the illumination is
  (1 - cos(2 pi phase)) 50 of the phase returned with it, which is the phase the
  ephemeris library reports for the instant; so it lies between 0 and 100 and is fixed
  by the phase.
\<close>

theorem getMoonPhase_illumination:
  "illumination (getMoonPhase E time) = (1 - cos (2 * pi * phase (getMoonPhase E time))) * 50
   \<and> phase (getMoonPhase E time)
       = Astronomy.MoonPhase (astronomy E) (dateTimeToAstronomyTime E time)
   \<and> 0 \<le> illumination (getMoonPhase E time) \<and> illumination (getMoonPhase E time) \<le> 100"
proof -
  let ?p = "Astronomy.MoonPhase (astronomy E) (dateTimeToAstronomyTime E time)"
  have p: "phase (getMoonPhase E time) = ?p" by (simp add: getMoonPhase_def Let_def)
  have i: "illumination (getMoonPhase E time) = (1 - cos (?p * 2 * pi)) * 50"
    by (simp add: getMoonPhase_def Let_def)
  have c: "?p * 2 * pi = 2 * pi * ?p" by simp
  have "- 1 \<le> cos (2 * pi * ?p)" "cos (2 * pi * ?p) \<le> 1"
    by (rule cos_ge_minus_one, rule cos_le_one)
  then have "0 \<le> (1 - cos (2 * pi * ?p)) * 50" "(1 - cos (2 * pi * ?p)) * 50 \<le> 100"
    by (rule percent_bounds)+
  then show ?thesis by (simp add: p i c)
qed

subsection \<open>The eclipse loops\<close>

lemma distinct_map_sort_key: "distinct (map f (sort_key f xs)) = distinct (map f xs)"
  by (induct xs) (simp_all add: distinct_insort_key)

lemma processSolarEclipse_Some:
  assumes "processSolarEclipse E ecl loc = Some ev"
  shows "ev_type ev = solar" and "toMillis (ev_date ev) = at_date (gs_peak ecl)"
  using assms
  by (auto simp: processSolarEclipse_def Let_def astronomyTimeToDateTime_def fromJSDate_def
        toMillis_def split: sum.splits option.splits)

lemma processLunarEclipse_Some:
  assumes "processLunarEclipse E ecl loc = Some ev"
  shows "ev_type ev = lunar" and "ev_isVisible ev" and "maxEclipseTime ev = Some (ev_date ev)"
    and "toMillis (ev_date ev) = at_date (le_peak ecl)"
  using assms
  by (auto simp: processLunarEclipse_def astronomyTimeToDateTime_def fromJSDate_def
        toMillis_def split: option.splits)

lemma processLunarEclipse_location:
  "processLunarEclipse E ecl loc = processLunarEclipse E ecl loc'"
  by (simp add: processLunarEclipse_def)

lemma in_option_list:
  "e \<in> set (case p of Some ev \<Rightarrow> [ev] | None \<Rightarrow> []) \<longleftrightarrow> p = Some e"
  by (cases p) auto

lemma solarEclipseLoop_step:
  assumes "at_tt t < at_tt endT"
    and "SearchGlobalSolarEclipse (astronomy E) t = Inr (Some ecl)"
    and "at_tt (gs_peak ecl) < at_tt endT"
  shows "solarEclipseLoop (Suc fuel) E loc endT t acc
           = solarEclipseLoop fuel E loc endT (AddDays (astronomy E) (gs_peak ecl) 1)
               (acc @ (case processSolarEclipse E ecl loc of Some ev \<Rightarrow> [ev] | None \<Rightarrow> []))"
  using assms by (simp split: option.splits)

lemma lunarEclipseLoop_step:
  assumes "at_tt t < at_tt endT"
    and "SearchLunarEclipse (astronomy E) t = Inr (Some ecl)"
    and "at_tt (le_peak ecl) < at_tt endT"
  shows "lunarEclipseLoop (Suc fuel) E loc endT t acc
           = lunarEclipseLoop fuel E loc endT (AddDays (astronomy E) (le_peak ecl) 1)
               (acc @ (case processLunarEclipse E ecl loc of Some ev \<Rightarrow> [ev] | None \<Rightarrow> []))"
  using assms by (simp split: option.splits)

lemma solarEclipseLoop_Suc_cases:
  assumes "solarEclipseLoop (Suc fuel) E loc endT t acc = Some r"
  obtains (stop) "r = acc"
      and "\<And>fuel' loc' acc'. solarEclipseLoop (Suc fuel') E loc' endT t acc' = Some acc'"
  | (step) ecl where "at_tt t < at_tt endT"
      and "SearchGlobalSolarEclipse (astronomy E) t = Inr (Some ecl)"
      and "at_tt (gs_peak ecl) < at_tt endT"
      and "solarEclipseLoop fuel E loc endT (AddDays (astronomy E) (gs_peak ecl) 1)
             (acc @ (case processSolarEclipse E ecl loc of Some ev \<Rightarrow> [ev] | None \<Rightarrow> [])) = Some r"
proof (cases "at_tt t < at_tt endT
    \<and> (\<exists>ecl. SearchGlobalSolarEclipse (astronomy E) t = Inr (Some ecl)
          \<and> at_tt (gs_peak ecl) < at_tt endT)")
  case True
  then obtain ecl where e: "at_tt t < at_tt endT"
    "SearchGlobalSolarEclipse (astronomy E) t = Inr (Some ecl)"
    "at_tt (gs_peak ecl) < at_tt endT" by blast
  with assms have "solarEclipseLoop fuel E loc endT (AddDays (astronomy E) (gs_peak ecl) 1)
      (acc @ (case processSolarEclipse E ecl loc of Some ev \<Rightarrow> [ev] | None \<Rightarrow> [])) = Some r"
    by (simp split: option.splits)
  with e show ?thesis by (rule step)
next
  case False
  then have "\<And>fuel' loc' acc'. solarEclipseLoop (Suc fuel') E loc' endT t acc' = Some acc'"
    by (auto split: sum.splits option.splits)
  moreover from this assms have "r = acc" by simp
  ultimately show ?thesis using stop by blast
qed

lemma lunarEclipseLoop_Suc_cases:
  assumes "lunarEclipseLoop (Suc fuel) E loc endT t acc = Some r"
  obtains (stop) "r = acc"
      and "\<And>fuel' loc' acc'. lunarEclipseLoop (Suc fuel') E loc' endT t acc' = Some acc'"
  | (step) ecl where "at_tt t < at_tt endT"
      and "SearchLunarEclipse (astronomy E) t = Inr (Some ecl)"
      and "at_tt (le_peak ecl) < at_tt endT"
      and "lunarEclipseLoop fuel E loc endT (AddDays (astronomy E) (le_peak ecl) 1)
             (acc @ (case processLunarEclipse E ecl loc of Some ev \<Rightarrow> [ev] | None \<Rightarrow> [])) = Some r"
proof (cases "at_tt t < at_tt endT
    \<and> (\<exists>ecl. SearchLunarEclipse (astronomy E) t = Inr (Some ecl)
          \<and> at_tt (le_peak ecl) < at_tt endT)")
  case True
  then obtain ecl where e: "at_tt t < at_tt endT"
    "SearchLunarEclipse (astronomy E) t = Inr (Some ecl)"
    "at_tt (le_peak ecl) < at_tt endT" by blast
  with assms have "lunarEclipseLoop fuel E loc endT (AddDays (astronomy E) (le_peak ecl) 1)
      (acc @ (case processLunarEclipse E ecl loc of Some ev \<Rightarrow> [ev] | None \<Rightarrow> [])) = Some r"
    by (simp split: option.splits)
  with e show ?thesis by (rule step)
next
  case False
  then have "\<And>fuel' loc' acc'. lunarEclipseLoop (Suc fuel') E loc' endT t acc' = Some acc'"
    by (auto split: sum.splits option.splits)
  moreover from this assms have "r = acc" by simp
  ultimately show ?thesis using stop by blast
qed

lemma solarEclipseLoop_appends:
  "solarEclipseLoop fuel E loc endT t acc = Some r \<Longrightarrow>
     \<exists>new. r = acc @ new \<and> (\<forall>e\<in>set new. ev_type e = solar)"
proof (induction fuel arbitrary: t acc)
  case 0
  then show ?case by simp
next
  case (Suc fuel)
  from Suc.prems show ?case
  proof (cases rule: solarEclipseLoop_Suc_cases)
    case stop
    then show ?thesis by simp
  next
    case (step ecl)
    let ?evs = "case processSolarEclipse E ecl loc of Some ev \<Rightarrow> [ev] | None \<Rightarrow> []"
    from Suc.IH [OF step(4)] obtain new where
      new: "r = (acc @ ?evs) @ new" "\<forall>e\<in>set new. ev_type e = solar" by blast
    have "\<forall>e\<in>set ?evs. ev_type e = solar"
    proof
      fix e assume "e \<in> set ?evs"
      then have "processSolarEclipse E ecl loc = Some e" by (simp only: in_option_list)
      then show "ev_type e = solar" by (rule processSolarEclipse_Some(1))
    qed
    with new(2) have "\<forall>e\<in>set (?evs @ new). ev_type e = solar"
      by (simp only: set_append ball_Un)
    moreover from new(1) have "r = acc @ (?evs @ new)" by (simp only: append_assoc)
    ultimately show ?thesis by (intro exI [of _ "?evs @ new"] conjI)
  qed
qed

lemma lunarEclipseLoop_appends:
  "lunarEclipseLoop fuel E loc endT t acc = Some r \<Longrightarrow>
     \<exists>new. r = acc @ new
       \<and> (\<forall>e\<in>set new. ev_type e = lunar \<and> ev_isVisible e \<and> maxEclipseTime e = Some (ev_date e))
       \<and> (\<forall>loc' acc'. lunarEclipseLoop fuel E loc' endT t acc' = Some (acc' @ new))"
proof (induction fuel arbitrary: t acc)
  case 0
  then show ?case by simp
next
  case (Suc fuel)
  from Suc.prems show ?case
  proof (cases rule: lunarEclipseLoop_Suc_cases)
    case stop
    then show ?thesis by simp
  next
    case (step ecl)
    let ?evs = "case processLunarEclipse E ecl loc of Some ev \<Rightarrow> [ev] | None \<Rightarrow> []"
    from Suc.IH [OF step(4)] obtain new where
      new: "r = (acc @ ?evs) @ new"
        "\<forall>e\<in>set new. ev_type e = lunar \<and> ev_isVisible e \<and> maxEclipseTime e = Some (ev_date e)"
        "\<forall>loc' acc'. lunarEclipseLoop fuel E loc' endT (AddDays (astronomy E) (le_peak ecl) 1) acc'
            = Some (acc' @ new)"
      by blast
    have evs: "\<forall>e\<in>set ?evs. ev_type e = lunar \<and> ev_isVisible e \<and> maxEclipseTime e = Some (ev_date e)"
    proof
      fix e assume "e \<in> set ?evs"
      then have "processLunarEclipse E ecl loc = Some e" by (simp only: in_option_list)
      from processLunarEclipse_Some(1-3) [OF this]
      show "ev_type e = lunar \<and> ev_isVisible e \<and> maxEclipseTime e = Some (ev_date e)"
        by simp
    qed
    have indep: "lunarEclipseLoop (Suc fuel) E loc' endT t acc' = Some (acc' @ (?evs @ new))"
      for loc' acc'
    proof -
      have p: "processLunarEclipse E ecl loc' = processLunarEclipse E ecl loc"
        by (rule processLunarEclipse_location)
      have "lunarEclipseLoop (Suc fuel) E loc' endT t acc'
              = lunarEclipseLoop fuel E loc' endT (AddDays (astronomy E) (le_peak ecl) 1)
                  (acc' @ ?evs)"
        by (simp only: lunarEclipseLoop_step [OF step(1-3)] p)
      also have "\<dots> = Some ((acc' @ ?evs) @ new)" using new(3) by (rule allE, elim allE)
      finally show ?thesis by (simp only: append_assoc)
    qed
    from new(2) evs have "\<forall>e\<in>set (?evs @ new).
        ev_type e = lunar \<and> ev_isVisible e \<and> maxEclipseTime e = Some (ev_date e)"
      by (simp only: set_append ball_Un)
    moreover from new(1) have "r = acc @ (?evs @ new)" by (simp only: append_assoc)
    moreover from indep have "\<forall>loc' acc'.
        lunarEclipseLoop (Suc fuel) E loc' endT t acc' = Some (acc' @ (?evs @ new))"
      by (intro allI)
    ultimately show ?thesis by (intro exI [of _ "?evs @ new"] conjI)
  qed
qed

lemma solarEclipseLoop_location:
  "solarEclipseLoop fuel E loc endT t acc = Some r \<Longrightarrow>
     \<exists>r'. solarEclipseLoop fuel E loc' endT t acc' = Some r'"
proof (induction fuel arbitrary: t acc acc' r)
  case 0
  then show ?case by simp
next
  case (Suc fuel)
  from Suc.prems show ?case
  proof (cases rule: solarEclipseLoop_Suc_cases)
    case stop
    then show ?thesis by blast
  next
    case (step ecl)
    let ?acc' = "acc' @ (case processSolarEclipse E ecl loc' of Some ev \<Rightarrow> [ev] | None \<Rightarrow> [])"
    from Suc.IH [OF step(4)] obtain r' where
      "solarEclipseLoop fuel E loc' endT (AddDays (astronomy E) (gs_peak ecl) 1) ?acc' = Some r'"
      by blast
    then have "solarEclipseLoop (Suc fuel) E loc' endT t acc' = Some r'"
      by (simp only: solarEclipseLoop_step [OF step(1-3)])
    then show ?thesis by (rule exI)
  qed
qed

lemma processSolarEclipse_visible:
  assumes "processSolarEclipse E ecl loc = Some ev"
  shows "\<exists>found.
           SearchLocalSolarEclipse (astronomy E) (gs_peak ecl)
             (MakeObserver (lc_latitude loc) (lc_longitude loc) (altitude_or_0 loc)) = Inr found
           \<and> ev_isVisible ev = (found \<noteq> None)
           \<and> maxEclipseTime ev = map_option (\<lambda>l. astronomyTimeToDateTime E (lo_peak l)) found
           \<and> ev_date ev = astronomyTimeToDateTime E (gs_peak ecl)"
  using assms
  by (auto simp: processSolarEclipse_def Let_def split: sum.splits option.splits)

lemma solarEclipseLoop_events:
  "solarEclipseLoop fuel E loc endT t acc = Some r \<Longrightarrow>
     \<exists>new. r = acc @ new
       \<and> (\<forall>e\<in>set new. \<exists>s ecl. SearchGlobalSolarEclipse (astronomy E) s = Inr (Some ecl)
              \<and> processSolarEclipse E ecl loc = Some e)"
proof (induction fuel arbitrary: t acc)
  case 0
  then show ?case by simp
next
  case (Suc fuel)
  from Suc.prems show ?case
  proof (cases rule: solarEclipseLoop_Suc_cases)
    case stop
    then show ?thesis by simp
  next
    case (step ecl)
    let ?evs = "case processSolarEclipse E ecl loc of Some ev \<Rightarrow> [ev] | None \<Rightarrow> []"
    let ?Q = "\<lambda>e. \<exists>s ecl. SearchGlobalSolarEclipse (astronomy E) s = Inr (Some ecl)
              \<and> processSolarEclipse E ecl loc = Some e"
    from Suc.IH [OF step(4)] obtain new where
      new: "r = (acc @ ?evs) @ new" "\<forall>e\<in>set new. ?Q e" by (elim exE conjE)
    have "\<forall>e\<in>set ?evs. ?Q e"
    proof
      fix e assume "e \<in> set ?evs"
      then have "processSolarEclipse E ecl loc = Some e" by (simp only: in_option_list)
      with step(2) show "?Q e" by (intro exI conjI)
    qed
    with new(2) have "\<forall>e\<in>set (?evs @ new). ?Q e"
      by (simp only: set_append ball_Un)
    moreover from new(1) have "r = acc @ (?evs @ new)" by (simp only: append_assoc)
    ultimately show ?thesis by (intro exI [of _ "?evs @ new"] conjI)
  qed
qed

subsection \<open>The eclipse search\<close>

lemma getUpcomingEclipses_Some:
  assumes "getUpcomingEclipses fuel E startTime location daysToSearch = Some r"
  obtains eclipses1 eclipses2 where
    "solarEclipseLoop fuel E location
       (dateTimeToAstronomyTime E (plus_days (luxon E) startTime daysToSearch))
       (dateTimeToAstronomyTime E startTime) [] = Some eclipses1"
    and "lunarEclipseLoop fuel E location
       (dateTimeToAstronomyTime E (plus_days (luxon E) startTime daysToSearch))
       (dateTimeToAstronomyTime E startTime) eclipses1 = Some eclipses2"
    and "r = sort_key (\<lambda>a. toMillis (ev_date a)) eclipses2"
  using assms by (auto simp: getUpcomingEclipses_def Let_def split: option.splits)

lemma getUpcomingEclipses_eq:
  assumes "solarEclipseLoop fuel E location
       (dateTimeToAstronomyTime E (plus_days (luxon E) startTime daysToSearch))
       (dateTimeToAstronomyTime E startTime) [] = Some eclipses1"
    and "lunarEclipseLoop fuel E location
       (dateTimeToAstronomyTime E (plus_days (luxon E) startTime daysToSearch))
       (dateTimeToAstronomyTime E startTime) eclipses1 = Some eclipses2"
  shows "getUpcomingEclipses fuel E startTime location daysToSearch
           = Some (sort_key (\<lambda>a. toMillis (ev_date a)) eclipses2)"
  using assms by (simp add: getUpcomingEclipses_def Let_def)

lemma filter_lunar_append:
  assumes "\<forall>e\<in>set xs. ev_type e = solar" and "\<forall>e\<in>set ys. ev_type e = lunar"
  shows "filter (\<lambda>e. ev_type e = lunar) (xs @ ys) = ys"
proof -
  have "filter (\<lambda>e. ev_type e = lunar) xs = []"
    using assms(1) by (simp add: filter_empty_conv)
  moreover have "filter (\<lambda>e. ev_type e = lunar) ys = ys"
    using assms(2) by (simp add: filter_id_conv)
  ultimately show ?thesis by simp
qed

text \<open>
  C10. Every lunar event in the list \<open>getUpcomingEclipses\<close> returns is visible and has
  its peak date as the time of maximum eclipse; and whatever other observer the call is
  given, it returns there too, with the same lunar events in the same order. Only the
  solar events depend on the observer: each of them comes from an eclipse that the global
  search found, and it is visible exactly when the local search at that eclipse's peak,
  for the observer the call was given, returns an eclipse, whose peak is then the time
  of maximum eclipse.
\<close>

theorem getUpcomingEclipses_lunar_events:
  assumes "getUpcomingEclipses fuel E startTime location daysToSearch = Some r"
  shows "(\<forall>e\<in>set r. ev_type e = lunar \<longrightarrow>
            ev_isVisible e \<and> maxEclipseTime e = Some (ev_date e))
       \<and> (\<forall>location'. \<exists>r'.
            getUpcomingEclipses fuel E startTime location' daysToSearch = Some r'
            \<and> filter (\<lambda>e. ev_type e = lunar) r' = filter (\<lambda>e. ev_type e = lunar) r)
       \<and> (\<forall>e\<in>set r. ev_type e = solar \<longrightarrow>
            (\<exists>s ecl found.
               SearchGlobalSolarEclipse (astronomy E) s = Inr (Some ecl)
               \<and> ev_date e = astronomyTimeToDateTime E (gs_peak ecl)
               \<and> SearchLocalSolarEclipse (astronomy E) (gs_peak ecl)
                   (MakeObserver (lc_latitude location) (lc_longitude location)
                      (altitude_or_0 location)) = Inr found
               \<and> ev_isVisible e = (found \<noteq> None)
               \<and> maxEclipseTime e
                   = map_option (\<lambda>l. astronomyTimeToDateTime E (lo_peak l)) found))"
proof -
  let ?endT = "dateTimeToAstronomyTime E (plus_days (luxon E) startTime daysToSearch)"
  let ?t = "dateTimeToAstronomyTime E startTime"
  let ?key = "\<lambda>a. toMillis (ev_date a)"
  let ?lun = "\<lambda>e. ev_type e = lunar"
  from assms obtain es1 es2 where
    s: "solarEclipseLoop fuel E location ?endT ?t [] = Some es1"
    and l: "lunarEclipseLoop fuel E location ?endT ?t es1 = Some es2"
    and r: "r = sort_key ?key es2"
    by (rule getUpcomingEclipses_Some)
  from solarEclipseLoop_appends [OF s] have es1: "\<forall>e\<in>set es1. ev_type e = solar"
    by simp
  from lunarEclipseLoop_appends [OF l] obtain new where
    es2: "es2 = es1 @ new"
    and new: "\<forall>e\<in>set new. ev_type e = lunar \<and> ev_isVisible e \<and> maxEclipseTime e = Some (ev_date e)"
    and indep: "\<forall>loc' acc'. lunarEclipseLoop fuel E loc' ?endT ?t acc' = Some (acc' @ new)"
    by blast
  from new have new_lunar: "\<forall>e\<in>set new. ev_type e = lunar" by blast
  have flt: "filter ?lun r = sort_key ?key new"
    by (simp only: r es2 filter_sort filter_lunar_append [OF es1 new_lunar])
  have first: "\<forall>e\<in>set r. ev_type e = lunar \<longrightarrow>
      ev_isVisible e \<and> maxEclipseTime e = Some (ev_date e)"
  proof (intro ballI impI)
    fix e assume "e \<in> set r" and lun: "ev_type e = lunar"
    then have "e \<in> set es1 \<or> e \<in> set new" by (simp add: r es2)
    moreover have "e \<notin> set es1" using es1 lun by auto
    ultimately have "e \<in> set new" by blast
    with new show "ev_isVisible e \<and> maxEclipseTime e = Some (ev_date e)" by blast
  qed
  have second: "\<exists>r'. getUpcomingEclipses fuel E startTime location' daysToSearch = Some r'
      \<and> filter ?lun r' = filter ?lun r" for location'
  proof -
    from solarEclipseLoop_location [OF s] obtain es1' where
      s': "solarEclipseLoop fuel E location' ?endT ?t [] = Some es1'" by blast
    from solarEclipseLoop_appends [OF s'] have es1': "\<forall>e\<in>set es1'. ev_type e = solar"
      by simp
    from indep have l': "lunarEclipseLoop fuel E location' ?endT ?t es1' = Some (es1' @ new)"
      by blast
    have g: "getUpcomingEclipses fuel E startTime location' daysToSearch
               = Some (sort_key ?key (es1' @ new))"
      by (rule getUpcomingEclipses_eq [OF s' l'])
    have "filter ?lun (sort_key ?key (es1' @ new)) = sort_key ?key new"
      by (simp only: filter_sort filter_lunar_append [OF es1' new_lunar])
    with g flt show ?thesis by simp
  qed
  have third: "\<forall>e\<in>set r. ev_type e = solar \<longrightarrow>
            (\<exists>s ecl found.
               SearchGlobalSolarEclipse (astronomy E) s = Inr (Some ecl)
               \<and> ev_date e = astronomyTimeToDateTime E (gs_peak ecl)
               \<and> SearchLocalSolarEclipse (astronomy E) (gs_peak ecl)
                   (MakeObserver (lc_latitude location) (lc_longitude location)
                      (altitude_or_0 location)) = Inr found
               \<and> ev_isVisible e = (found \<noteq> None)
               \<and> maxEclipseTime e
                   = map_option (\<lambda>l. astronomyTimeToDateTime E (lo_peak l)) found)"
  proof (intro ballI impI)
    fix e assume "e \<in> set r" and sol: "ev_type e = solar"
    then have "e \<in> set es1 \<or> e \<in> set new" by (simp add: r es2)
    moreover have "e \<notin> set new" using new_lunar sol by auto
    ultimately have e1: "e \<in> set es1" by blast
    from solarEclipseLoop_events [OF s] obtain snew where
      "es1 = [] @ snew"
      and ev: "\<forall>e\<in>set snew. \<exists>s ecl. SearchGlobalSolarEclipse (astronomy E) s = Inr (Some ecl)
              \<and> processSolarEclipse E ecl location = Some e"
      by (elim exE conjE)
    then have "snew = es1" by simp
    with ev e1 obtain s ecl where
      g: "SearchGlobalSolarEclipse (astronomy E) s = Inr (Some ecl)"
      and p: "processSolarEclipse E ecl location = Some e"
      by blast
    from processSolarEclipse_visible [OF p] obtain found where
      f: "SearchLocalSolarEclipse (astronomy E) (gs_peak ecl)
             (MakeObserver (lc_latitude location) (lc_longitude location)
                (altitude_or_0 location)) = Inr found"
        "ev_isVisible e = (found \<noteq> None)"
        "maxEclipseTime e = map_option (\<lambda>l. astronomyTimeToDateTime E (lo_peak l)) found"
        "ev_date e = astronomyTimeToDateTime E (gs_peak ecl)"
      by (elim exE conjE)
    show "\<exists>s ecl found.
               SearchGlobalSolarEclipse (astronomy E) s = Inr (Some ecl)
               \<and> ev_date e = astronomyTimeToDateTime E (gs_peak ecl)
               \<and> SearchLocalSolarEclipse (astronomy E) (gs_peak ecl)
                   (MakeObserver (lc_latitude location) (lc_longitude location)
                      (altitude_or_0 location)) = Inr found
               \<and> ev_isVisible e = (found \<noteq> None)
               \<and> maxEclipseTime e
                   = map_option (\<lambda>l. astronomyTimeToDateTime E (lo_peak l)) found"
      by (intro exI [of _ s] exI [of _ ecl] exI [of _ found] conjI g f)
  qed
  from second have second': "\<forall>location'. \<exists>r'.
            getUpcomingEclipses fuel E startTime location' daysToSearch = Some r'
            \<and> filter ?lun r' = filter ?lun r"
    by (rule allI)
  from first second' third show ?thesis by (intro conjI)
qed

text \<open>The search from noon of 21 June 2024 over 730 days, for an observer in New York:
  the six eclipses, ordered by date.\<close>

lemmas eclipse_eval =
  getUpcomingEclipses_def Let_def eclipseEnv_def eclipseAstronomy_def testAstronomy_def
  testLuxon_def dateTimeToAstronomyTime_def toJSDate_def dayTime_def
  processSolarEclipse_def processLunarEclipse_def MakeObserver_def altitude_or_0_def
  astronomyTimeToDateTime_def fromJSDate_def toMillis_def newYork_def sydney_def

lemma eclipses_newYork:
  "\<exists>r. getUpcomingEclipses 4 eclipseEnv (now testLuxon) newYork 730 = Some r
     \<and> map (\<lambda>e. (ev_type e, dt_ts (ev_date e) / 86400000, ev_isVisible e)) r
       = [(lunar, 19984, True), (solar, 19998, True), (lunar, 20161, True),
          (solar, 20176, True), (lunar, 20338, True), (solar, 20353, True)]"
  by (simp add: eclipse_eval numeral_eq_Suc)

text \<open>The same search for an observer in Sydney: the same six eclipses, and none of the
  solar ones is seen.\<close>

lemma eclipses_sydney:
  "\<exists>r. getUpcomingEclipses 4 eclipseEnv (now testLuxon) sydney 730 = Some r
     \<and> map (\<lambda>e. (ev_type e, dt_ts (ev_date e) / 86400000, ev_isVisible e)) r
       = [(lunar, 19984, True), (solar, 19998, False), (lunar, 20161, True),
          (solar, 20176, False), (lunar, 20338, True), (solar, 20353, False)]"
  by (simp add: eclipse_eval numeral_eq_Suc)

theorem getUpcomingEclipses_lunar_events_witness:
  "\<exists>r r'. getUpcomingEclipses 4 eclipseEnv (now testLuxon) newYork 730 = Some r
     \<and> getUpcomingEclipses 4 eclipseEnv (now testLuxon) sydney 730 = Some r'
     \<and> length r = 6
     \<and> length (filter (\<lambda>e. ev_type e = lunar) r) = 3
     \<and> filter (\<lambda>e. ev_type e = lunar) r' = filter (\<lambda>e. ev_type e = lunar) r
     \<and> list_all (\<lambda>e. ev_isVisible e \<and> maxEclipseTime e = Some (ev_date e))
          (filter (\<lambda>e. ev_type e = lunar) r)
     \<and> map ev_isVisible (filter (\<lambda>e. ev_type e = solar) r) = [True, True, True]
     \<and> map ev_isVisible (filter (\<lambda>e. ev_type e = solar) r') = [False, False, False]
     \<and> list_all (\<lambda>e. \<exists>s ecl found.
            SearchGlobalSolarEclipse (astronomy eclipseEnv) s = Inr (Some ecl)
            \<and> ev_date e = astronomyTimeToDateTime eclipseEnv (gs_peak ecl)
            \<and> SearchLocalSolarEclipse (astronomy eclipseEnv) (gs_peak ecl)
                (MakeObserver (lc_latitude newYork) (lc_longitude newYork)
                   (altitude_or_0 newYork)) = Inr found
            \<and> ev_isVisible e = (found \<noteq> None)
            \<and> maxEclipseTime e
                = map_option (\<lambda>l. astronomyTimeToDateTime eclipseEnv (lo_peak l)) found)
          (filter (\<lambda>e. ev_type e = solar) r)"
proof -
  let ?f = "\<lambda>e. (ev_type e, dt_ts (ev_date e) / 86400000, ev_isVisible e)"
  let ?S = "\<lambda>e. \<exists>s ecl found.
            SearchGlobalSolarEclipse (astronomy eclipseEnv) s = Inr (Some ecl)
            \<and> ev_date e = astronomyTimeToDateTime eclipseEnv (gs_peak ecl)
            \<and> SearchLocalSolarEclipse (astronomy eclipseEnv) (gs_peak ecl)
                (MakeObserver (lc_latitude newYork) (lc_longitude newYork)
                   (altitude_or_0 newYork)) = Inr found
            \<and> ev_isVisible e = (found \<noteq> None)
            \<and> maxEclipseTime e
                = map_option (\<lambda>l. astronomyTimeToDateTime eclipseEnv (lo_peak l)) found"
  have vis: "map ev_isVisible (filter (\<lambda>e. ev_type e = solar) xs)
               = map (\<lambda>p. snd (snd p)) (filter (\<lambda>p. fst p = solar) (map ?f xs))" for xs
    by (simp add: filter_map comp_def)
  from eclipses_newYork obtain r where
    r: "getUpcomingEclipses 4 eclipseEnv (now testLuxon) newYork 730 = Some r"
    and m: "map ?f r = [(lunar, 19984, True), (solar, 19998, True), (lunar, 20161, True),
           (solar, 20176, True), (lunar, 20338, True), (solar, 20353, True)]"
    by (elim exE conjE)
  from eclipses_sydney obtain r2 where
    r2: "getUpcomingEclipses 4 eclipseEnv (now testLuxon) sydney 730 = Some r2"
    and m2: "map ?f r2 = [(lunar, 19984, True), (solar, 19998, False), (lunar, 20161, True),
           (solar, 20176, False), (lunar, 20338, True), (solar, 20353, False)]"
    by (elim exE conjE)
  have "length (map ?f r) = 6" by (simp only: m) simp
  then have len: "length r = 6" by (simp only: length_map)
  have "length (filter (\<lambda>e. ev_type e = lunar) r)
          = length (filter (\<lambda>p. fst p = lunar) (map ?f r))"
    by (simp add: filter_map comp_def)
  also have "\<dots> = 3" by (simp only: m) simp
  finally have len3: "length (filter (\<lambda>e. ev_type e = lunar) r) = 3" .
  have v: "map ev_isVisible (filter (\<lambda>e. ev_type e = solar) r) = [True, True, True]"
    by (simp only: vis m) simp
  have v2: "map ev_isVisible (filter (\<lambda>e. ev_type e = solar) r2) = [False, False, False]"
    by (simp only: vis m2) simp
  note main = getUpcomingEclipses_lunar_events [OF r]
  from main have a: "\<forall>e\<in>set r. ev_type e = lunar \<longrightarrow>
             ev_isVisible e \<and> maxEclipseTime e = Some (ev_date e)"
    by (rule conjunct1)
  from main [THEN conjunct2] have b: "\<forall>location'. \<exists>r'.
             getUpcomingEclipses 4 eclipseEnv (now testLuxon) location' 730 = Some r'
             \<and> filter (\<lambda>e. ev_type e = lunar) r' = filter (\<lambda>e. ev_type e = lunar) r"
    by (rule conjunct1)
  from main [THEN conjunct2] have c: "\<forall>e\<in>set r. ev_type e = solar \<longrightarrow> ?S e"
    by (rule conjunct2)
  from b [THEN spec, of sydney] obtain r' where
    r': "getUpcomingEclipses 4 eclipseEnv (now testLuxon) sydney 730 = Some r'"
    and f: "filter (\<lambda>e. ev_type e = lunar) r' = filter (\<lambda>e. ev_type e = lunar) r"
    by (elim exE conjE)
  from r' r2 have "Some r' = Some r2" by (rule trans [OF sym])
  then have "r' = r2" by (simp only: option.inject)
  with v2 have v': "map ev_isVisible (filter (\<lambda>e. ev_type e = solar) r') = [False, False, False]"
    by (simp only:)
  from a have l: "list_all (\<lambda>e. ev_isVisible e \<and> maxEclipseTime e = Some (ev_date e))
          (filter (\<lambda>e. ev_type e = lunar) r)"
    by (simp add: list_all_iff)
  have l2: "list_all ?S (filter (\<lambda>e. ev_type e = solar) r)"
    unfolding list_all_iff
  proof
    fix e assume "e \<in> set (filter (\<lambda>e. ev_type e = solar) r)"
    then have e: "e \<in> set r" and sol: "ev_type e = solar" by simp_all
    from c e have "ev_type e = solar \<longrightarrow> ?S e" by (rule bspec)
    from this sol show "?S e" by (rule mp)
  qed
  show ?thesis
    by (intro exI [of _ r] exI [of _ r'] conjI r r' len len3 f l v v' l2)
qed

subsection \<open>Fuel, and when the loops end\<close>

lemma solarEclipseLoop_fuel:
  "solarEclipseLoop fuel E loc endT t acc = Some r \<Longrightarrow>
     solarEclipseLoop (fuel + k) E loc endT t acc = Some r"
proof (induction fuel arbitrary: t acc)
  case 0
  then show ?case by simp
next
  case (Suc fuel)
  from Suc.prems show ?case
  proof (cases rule: solarEclipseLoop_Suc_cases)
    case stop
    then show ?thesis by simp
  next
    case (step ecl)
    have "solarEclipseLoop (Suc (fuel + k)) E loc endT t acc = Some r"
      by (simp only: solarEclipseLoop_step [OF step(1-3)] Suc.IH [OF step(4)])
    then show ?thesis by simp
  qed
qed

lemma lunarEclipseLoop_fuel:
  "lunarEclipseLoop fuel E loc endT t acc = Some r \<Longrightarrow>
     lunarEclipseLoop (fuel + k) E loc endT t acc = Some r"
proof (induction fuel arbitrary: t acc)
  case 0
  then show ?case by simp
next
  case (Suc fuel)
  from Suc.prems show ?case
  proof (cases rule: lunarEclipseLoop_Suc_cases)
    case stop
    then show ?thesis by simp
  next
    case (step ecl)
    have "lunarEclipseLoop (Suc (fuel + k)) E loc endT t acc = Some r"
      by (simp only: lunarEclipseLoop_step [OF step(1-3)] Suc.IH [OF step(4)])
    then show ?thesis by simp
  qed
qed

lemma getUpcomingEclipses_fuel:
  assumes "getUpcomingEclipses fuel E startTime location daysToSearch = Some r"
  shows "getUpcomingEclipses (fuel + k) E startTime location daysToSearch = Some r"
proof -
  from assms obtain es1 es2 where
    s: "solarEclipseLoop fuel E location
       (dateTimeToAstronomyTime E (plus_days (luxon E) startTime daysToSearch))
       (dateTimeToAstronomyTime E startTime) [] = Some es1"
    and l: "lunarEclipseLoop fuel E location
       (dateTimeToAstronomyTime E (plus_days (luxon E) startTime daysToSearch))
       (dateTimeToAstronomyTime E startTime) es1 = Some es2"
    and r: "r = sort_key (\<lambda>a. toMillis (ev_date a)) es2"
    by (rule getUpcomingEclipses_Some)
  show ?thesis
    by (simp only: r getUpcomingEclipses_eq [OF solarEclipseLoop_fuel [OF s]
          lunarEclipseLoop_fuel [OF l]])
qed

lemma getUpcomingEclipses_deterministic:
  assumes "getUpcomingEclipses fuel E startTime location daysToSearch = Some r"
    and "getUpcomingEclipses fuel' E startTime location daysToSearch = Some r'"
  shows "r' = r"
proof -
  have "getUpcomingEclipses (fuel + fuel') E startTime location daysToSearch = Some r"
    by (rule getUpcomingEclipses_fuel [OF assms(1)])
  moreover have "getUpcomingEclipses (fuel' + fuel) E startTime location daysToSearch = Some r'"
    by (rule getUpcomingEclipses_fuel [OF assms(2)])
  ultimately show ?thesis by (simp add: add.commute)
qed

lemma getUpcomingEclipses_ascending:
  assumes "getUpcomingEclipses fuel E startTime location daysToSearch = Some r"
  shows "sorted (map (\<lambda>a. toMillis (ev_date a)) r)"
    and "\<forall>e\<in>set r. ev_type e = solar \<or> ev_type e = lunar"
proof -
  from assms obtain es2 where r: "r = sort_key (\<lambda>a. toMillis (ev_date a)) es2"
    by (rule getUpcomingEclipses_Some)
  show "sorted (map (\<lambda>a. toMillis (ev_date a)) r)" by (simp only: r sorted_sort_key)
  show "\<forall>e\<in>set r. ev_type e = solar \<or> ev_type e = lunar"
  proof
    fix e show "ev_type e = solar \<or> ev_type e = lunar" by (cases "ev_type e") simp_all
  qed
qed

lemma solarEclipseLoop_stop:
  assumes "\<not> (at_tt t < at_tt endT
    \<and> (\<exists>ecl. SearchGlobalSolarEclipse (astronomy E) t = Inr (Some ecl)
          \<and> at_tt (gs_peak ecl) < at_tt endT))"
  shows "solarEclipseLoop (Suc fuel) E loc endT t acc = Some acc"
  using assms by (auto split: sum.splits option.splits)

lemma lunarEclipseLoop_stop:
  assumes "\<not> (at_tt t < at_tt endT
    \<and> (\<exists>ecl. SearchLunarEclipse (astronomy E) t = Inr (Some ecl)
          \<and> at_tt (le_peak ecl) < at_tt endT))"
  shows "lunarEclipseLoop (Suc fuel) E loc endT t acc = Some acc"
  using assms by (auto split: sum.splits option.splits)

lemma solarEclipseLoop_returns:
  assumes add: "\<And>p. good p \<Longrightarrow> good (AddDays (astronomy E) p 1)
                  \<and> at_tt p + \<delta> \<le> at_tt (AddDays (astronomy E) p 1)"
    and search: "\<And>s ecl. good s \<Longrightarrow> SearchGlobalSolarEclipse (astronomy E) s = Inr (Some ecl)
                  \<Longrightarrow> good (gs_peak ecl) \<and> at_tt s \<le> at_tt (gs_peak ecl)"
    and \<delta>: "0 < \<delta>"
  shows "good t \<Longrightarrow> 1 \<le> fuel \<Longrightarrow> (at_tt endT - at_tt t) / \<delta> + 1 \<le> real fuel \<Longrightarrow>
           \<exists>r. solarEclipseLoop fuel E loc endT t acc = Some r"
proof (induction fuel arbitrary: t acc)
  case 0
  then show ?case by simp
next
  case (Suc fuel)
  show ?case
  proof (cases "at_tt t < at_tt endT
    \<and> (\<exists>ecl. SearchGlobalSolarEclipse (astronomy E) t = Inr (Some ecl)
          \<and> at_tt (gs_peak ecl) < at_tt endT)")
    case False
    then have "solarEclipseLoop (Suc fuel) E loc endT t acc = Some acc"
      by (rule solarEclipseLoop_stop)
    then show ?thesis by (rule exI)
  next
    case True
    then obtain ecl where e: "at_tt t < at_tt endT"
      "SearchGlobalSolarEclipse (astronomy E) t = Inr (Some ecl)"
      "at_tt (gs_peak ecl) < at_tt endT" by (elim conjE exE)
    let ?c = "AddDays (astronomy E) (gs_peak ecl) 1"
    from search [OF Suc.prems(1) e(2)] have wp: "good (gs_peak ecl)"
      and tp: "at_tt t \<le> at_tt (gs_peak ecl)" by simp_all
    from add [OF wp] have wc: "good ?c" and pc: "at_tt (gs_peak ecl) + \<delta> \<le> at_tt ?c"
      by simp_all
    have m: "(at_tt endT - at_tt t) / \<delta> \<le> real fuel" using Suc.prems(3) by simp
    have "0 < (at_tt endT - at_tt t) / \<delta>" using e(1) \<delta> by simp
    with m have "0 < real fuel" by linarith
    then have f1: "1 \<le> fuel" by simp
    have "at_tt endT - at_tt ?c \<le> (at_tt endT - at_tt t) - \<delta>" using tp pc by linarith
    then have "(at_tt endT - at_tt ?c) / \<delta> \<le> ((at_tt endT - at_tt t) - \<delta>) / \<delta>"
      using \<delta> by (simp only: divide_le_cancel) simp
    also have "\<dots> = (at_tt endT - at_tt t) / \<delta> - 1" using \<delta> by (simp add: diff_divide_distrib)
    finally have "(at_tt endT - at_tt ?c) / \<delta> + 1 \<le> real fuel" using m by linarith
    from Suc.IH [OF wc f1 this,
        where acc = "acc @ (case processSolarEclipse E ecl loc of Some ev \<Rightarrow> [ev] | None \<Rightarrow> [])"]
    obtain r where
      "solarEclipseLoop fuel E loc endT ?c
         (acc @ (case processSolarEclipse E ecl loc of Some ev \<Rightarrow> [ev] | None \<Rightarrow> [])) = Some r"
      by (elim exE)
    then have "solarEclipseLoop (Suc fuel) E loc endT t acc = Some r"
      by (simp only: solarEclipseLoop_step [OF e])
    then show ?thesis by (rule exI)
  qed
qed

lemma lunarEclipseLoop_returns:
  assumes add: "\<And>p. good p \<Longrightarrow> good (AddDays (astronomy E) p 1)
                  \<and> at_tt p + \<delta> \<le> at_tt (AddDays (astronomy E) p 1)"
    and search: "\<And>s ecl. good s \<Longrightarrow> SearchLunarEclipse (astronomy E) s = Inr (Some ecl)
                  \<Longrightarrow> good (le_peak ecl) \<and> at_tt s \<le> at_tt (le_peak ecl)"
    and \<delta>: "0 < \<delta>"
  shows "good t \<Longrightarrow> 1 \<le> fuel \<Longrightarrow> (at_tt endT - at_tt t) / \<delta> + 1 \<le> real fuel \<Longrightarrow>
           \<exists>r. lunarEclipseLoop fuel E loc endT t acc = Some r"
proof (induction fuel arbitrary: t acc)
  case 0
  then show ?case by simp
next
  case (Suc fuel)
  show ?case
  proof (cases "at_tt t < at_tt endT
    \<and> (\<exists>ecl. SearchLunarEclipse (astronomy E) t = Inr (Some ecl)
          \<and> at_tt (le_peak ecl) < at_tt endT)")
    case False
    then have "lunarEclipseLoop (Suc fuel) E loc endT t acc = Some acc"
      by (rule lunarEclipseLoop_stop)
    then show ?thesis by (rule exI)
  next
    case True
    then obtain ecl where e: "at_tt t < at_tt endT"
      "SearchLunarEclipse (astronomy E) t = Inr (Some ecl)"
      "at_tt (le_peak ecl) < at_tt endT" by (elim conjE exE)
    let ?c = "AddDays (astronomy E) (le_peak ecl) 1"
    from search [OF Suc.prems(1) e(2)] have wp: "good (le_peak ecl)"
      and tp: "at_tt t \<le> at_tt (le_peak ecl)" by simp_all
    from add [OF wp] have wc: "good ?c" and pc: "at_tt (le_peak ecl) + \<delta> \<le> at_tt ?c"
      by simp_all
    have m: "(at_tt endT - at_tt t) / \<delta> \<le> real fuel" using Suc.prems(3) by simp
    have "0 < (at_tt endT - at_tt t) / \<delta>" using e(1) \<delta> by simp
    with m have "0 < real fuel" by linarith
    then have f1: "1 \<le> fuel" by simp
    have "at_tt endT - at_tt ?c \<le> (at_tt endT - at_tt t) - \<delta>" using tp pc by linarith
    then have "(at_tt endT - at_tt ?c) / \<delta> \<le> ((at_tt endT - at_tt t) - \<delta>) / \<delta>"
      using \<delta> by (simp only: divide_le_cancel) simp
    also have "\<dots> = (at_tt endT - at_tt t) / \<delta> - 1" using \<delta> by (simp add: diff_divide_distrib)
    finally have "(at_tt endT - at_tt ?c) / \<delta> + 1 \<le> real fuel" using m by linarith
    from Suc.IH [OF wc f1 this,
        where acc = "acc @ (case processLunarEclipse E ecl loc of Some ev \<Rightarrow> [ev] | None \<Rightarrow> [])"]
    obtain r where
      "lunarEclipseLoop fuel E loc endT ?c
         (acc @ (case processLunarEclipse E ecl loc of Some ev \<Rightarrow> [ev] | None \<Rightarrow> [])) = Some r"
      by (elim exE)
    then have "lunarEclipseLoop (Suc fuel) E loc endT t acc = Some r"
      by (simp only: lunarEclipseLoop_step [OF e])
    then show ?thesis by (rule exI)
  qed
qed

subsection \<open>The order of the events found\<close>

lemma solarEclipseLoop_strictly_ascending:
  assumes add: "\<And>p. good p \<Longrightarrow> good (AddDays (astronomy E) p 1)
                  \<and> at_tt p < at_tt (AddDays (astronomy E) p 1)"
    and search: "\<And>s ecl. good s \<Longrightarrow> SearchGlobalSolarEclipse (astronomy E) s = Inr (Some ecl)
                  \<Longrightarrow> good (gs_peak ecl) \<and> at_tt s \<le> at_tt (gs_peak ecl)"
    and mono: "\<And>a b. good a \<Longrightarrow> good b \<Longrightarrow> at_tt a < at_tt b \<Longrightarrow> at_date a < at_date b"
  shows "good t \<Longrightarrow> solarEclipseLoop fuel E loc endT t acc = Some r \<Longrightarrow>
     \<exists>new. r = acc @ new
       \<and> sorted_wrt (<) (map (\<lambda>a. toMillis (ev_date a)) new)
       \<and> (\<forall>e\<in>set new. \<exists>s ecl. good s
              \<and> SearchGlobalSolarEclipse (astronomy E) s = Inr (Some ecl)
              \<and> toMillis (ev_date e) = at_date (gs_peak ecl)
              \<and> at_tt t \<le> at_tt (gs_peak ecl))"
proof (induction fuel arbitrary: t acc)
  case 0
  then show ?case by simp
next
  case (Suc fuel)
  from Suc.prems(2) show ?case
  proof (cases rule: solarEclipseLoop_Suc_cases)
    case stop
    then show ?thesis by simp
  next
    case (step ecl)
    let ?p = "gs_peak ecl"
    let ?c = "AddDays (astronomy E) ?p 1"
    let ?evs = "case processSolarEclipse E ecl loc of Some ev \<Rightarrow> [ev] | None \<Rightarrow> []"
    let ?key = "\<lambda>a. toMillis (ev_date a)"
    let ?Q = "\<lambda>t e. \<exists>s ecl. good s
              \<and> SearchGlobalSolarEclipse (astronomy E) s = Inr (Some ecl)
              \<and> ?key e = at_date (gs_peak ecl) \<and> at_tt t \<le> at_tt (gs_peak ecl)"
    from search [OF Suc.prems(1) step(2)] have wp: "good ?p" and tp: "at_tt t \<le> at_tt ?p"
      by simp_all
    from add [OF wp] have wc: "good ?c" and pc: "at_tt ?p < at_tt ?c" by simp_all
    from Suc.IH [OF wc step(4)] obtain new where
      r: "r = (acc @ ?evs) @ new" and srt: "sorted_wrt (<) (map ?key new)"
      and el: "\<forall>e\<in>set new. ?Q ?c e"
      by (elim exE conjE)
    have evkey: "?key e = at_date ?p" if "e \<in> set ?evs" for e
    proof -
      from that have "processSolarEclipse E ecl loc = Some e" by (simp only: in_option_list)
      then show ?thesis by (rule processSolarEclipse_Some(2))
    qed
    have later: "at_date ?p < ?key e' \<and> ?Q t e'" if "e' \<in> set new" for e'
    proof -
      from el that have "?Q ?c e'" by (rule bspec)
      then obtain s ecl' where s: "good s"
        "SearchGlobalSolarEclipse (astronomy E) s = Inr (Some ecl')"
        "?key e' = at_date (gs_peak ecl')" "at_tt ?c \<le> at_tt (gs_peak ecl')"
        by (elim exE conjE)
      from search [OF s(1,2)] have wp': "good (gs_peak ecl')" by simp
      from pc s(4) have lt: "at_tt ?p < at_tt (gs_peak ecl')" by linarith
      from mono [OF wp wp' lt] have "at_date ?p < ?key e'" by (simp only: s(3))
      moreover from tp lt have "at_tt t \<le> at_tt (gs_peak ecl')" by linarith
      with s(1-3) have "?Q t e'" by (intro exI conjI)
      ultimately show ?thesis by (rule conjI)
    qed
    have first: "?Q t e" if "e \<in> set ?evs" for e
      using Suc.prems(1) step(2) evkey [OF that] tp by (intro exI conjI)
    have s_evs: "sorted_wrt (<) (map ?key ?evs)"
      by (cases "processSolarEclipse E ecl loc") simp_all
    have cross: "\<forall>x\<in>set (map ?key ?evs). \<forall>y\<in>set (map ?key new). x < y"
    proof (intro ballI)
      fix x y assume "x \<in> set (map ?key ?evs)" "y \<in> set (map ?key new)"
      then obtain e e' where "e \<in> set ?evs" "x = ?key e" "e' \<in> set new" "y = ?key e'"
        by (auto simp only: set_map image_iff)
      with evkey later show "x < y" by simp
    qed
    have "sorted_wrt (<) (map ?key ?evs @ map ?key new)"
      by (rule sorted_wrt_append [THEN iffD2]) (intro conjI s_evs srt cross)
    then have "sorted_wrt (<) (map ?key (?evs @ new))" by (simp only: map_append)
    moreover have "\<forall>e\<in>set (?evs @ new). ?Q t e"
    proof
      fix e assume "e \<in> set (?evs @ new)"
      then have "e \<in> set ?evs \<or> e \<in> set new" by (simp only: set_append Un_iff)
      then show "?Q t e" using first later by blast
    qed
    moreover from r have "r = acc @ (?evs @ new)" by (simp only: append_assoc)
    ultimately show ?thesis by (intro exI [of _ "?evs @ new"] conjI)
  qed
qed

lemma lunarEclipseLoop_strictly_ascending:
  assumes add: "\<And>p. good p \<Longrightarrow> good (AddDays (astronomy E) p 1)
                  \<and> at_tt p < at_tt (AddDays (astronomy E) p 1)"
    and search: "\<And>s ecl. good s \<Longrightarrow> SearchLunarEclipse (astronomy E) s = Inr (Some ecl)
                  \<Longrightarrow> good (le_peak ecl) \<and> at_tt s \<le> at_tt (le_peak ecl)"
    and mono: "\<And>a b. good a \<Longrightarrow> good b \<Longrightarrow> at_tt a < at_tt b \<Longrightarrow> at_date a < at_date b"
  shows "good t \<Longrightarrow> lunarEclipseLoop fuel E loc endT t acc = Some r \<Longrightarrow>
     \<exists>new. r = acc @ new
       \<and> sorted_wrt (<) (map (\<lambda>a. toMillis (ev_date a)) new)
       \<and> (\<forall>e\<in>set new. \<exists>s ecl. good s
              \<and> SearchLunarEclipse (astronomy E) s = Inr (Some ecl)
              \<and> toMillis (ev_date e) = at_date (le_peak ecl)
              \<and> at_tt t \<le> at_tt (le_peak ecl))"
proof (induction fuel arbitrary: t acc)
  case 0
  then show ?case by simp
next
  case (Suc fuel)
  from Suc.prems(2) show ?case
  proof (cases rule: lunarEclipseLoop_Suc_cases)
    case stop
    then show ?thesis by simp
  next
    case (step ecl)
    let ?p = "le_peak ecl"
    let ?c = "AddDays (astronomy E) ?p 1"
    let ?evs = "case processLunarEclipse E ecl loc of Some ev \<Rightarrow> [ev] | None \<Rightarrow> []"
    let ?key = "\<lambda>a. toMillis (ev_date a)"
    let ?Q = "\<lambda>t e. \<exists>s ecl. good s
              \<and> SearchLunarEclipse (astronomy E) s = Inr (Some ecl)
              \<and> ?key e = at_date (le_peak ecl) \<and> at_tt t \<le> at_tt (le_peak ecl)"
    from search [OF Suc.prems(1) step(2)] have wp: "good ?p" and tp: "at_tt t \<le> at_tt ?p"
      by simp_all
    from add [OF wp] have wc: "good ?c" and pc: "at_tt ?p < at_tt ?c" by simp_all
    from Suc.IH [OF wc step(4)] obtain new where
      r: "r = (acc @ ?evs) @ new" and srt: "sorted_wrt (<) (map ?key new)"
      and el: "\<forall>e\<in>set new. ?Q ?c e"
      by (elim exE conjE)
    have evkey: "?key e = at_date ?p" if "e \<in> set ?evs" for e
    proof -
      from that have "processLunarEclipse E ecl loc = Some e" by (simp only: in_option_list)
      then show ?thesis by (rule processLunarEclipse_Some(4))
    qed
    have later: "at_date ?p < ?key e' \<and> ?Q t e'" if "e' \<in> set new" for e'
    proof -
      from el that have "?Q ?c e'" by (rule bspec)
      then obtain s ecl' where s: "good s"
        "SearchLunarEclipse (astronomy E) s = Inr (Some ecl')"
        "?key e' = at_date (le_peak ecl')" "at_tt ?c \<le> at_tt (le_peak ecl')"
        by (elim exE conjE)
      from search [OF s(1,2)] have wp': "good (le_peak ecl')" by simp
      from pc s(4) have lt: "at_tt ?p < at_tt (le_peak ecl')" by linarith
      from mono [OF wp wp' lt] have "at_date ?p < ?key e'" by (simp only: s(3))
      moreover from tp lt have "at_tt t \<le> at_tt (le_peak ecl')" by linarith
      with s(1-3) have "?Q t e'" by (intro exI conjI)
      ultimately show ?thesis by (rule conjI)
    qed
    have first: "?Q t e" if "e \<in> set ?evs" for e
      using Suc.prems(1) step(2) evkey [OF that] tp by (intro exI conjI)
    have s_evs: "sorted_wrt (<) (map ?key ?evs)"
      by (cases "processLunarEclipse E ecl loc") simp_all
    have cross: "\<forall>x\<in>set (map ?key ?evs). \<forall>y\<in>set (map ?key new). x < y"
    proof (intro ballI)
      fix x y assume "x \<in> set (map ?key ?evs)" "y \<in> set (map ?key new)"
      then obtain e e' where "e \<in> set ?evs" "x = ?key e" "e' \<in> set new" "y = ?key e'"
        by (auto simp only: set_map image_iff)
      with evkey later show "x < y" by simp
    qed
    have "sorted_wrt (<) (map ?key ?evs @ map ?key new)"
      by (rule sorted_wrt_append [THEN iffD2]) (intro conjI s_evs srt cross)
    then have "sorted_wrt (<) (map ?key (?evs @ new))" by (simp only: map_append)
    moreover have "\<forall>e\<in>set (?evs @ new). ?Q t e"
    proof
      fix e assume "e \<in> set (?evs @ new)"
      then have "e \<in> set ?evs \<or> e \<in> set new" by (simp only: set_append Un_iff)
      then show "?Q t e" using first later by blast
    qed
    moreover from r have "r = acc @ (?evs @ new)" by (simp only: append_assoc)
    ultimately show ?thesis by (intro exI [of _ "?evs @ new"] conjI)
  qed
qed

lemma fuel_enough: "x + 1 \<le> real (nat \<lceil>x\<rceil> + 1)"
proof -
  have "x \<le> real (nat \<lceil>x\<rceil>)" by (rule real_nat_ceiling_ge)
  then show ?thesis by simp
qed

text \<open>
  C6. Whether the search ends, and whether two of its events can share a date, is the
  ephemeris library's doing, so the statement names what it needs of the library. Its
  times (those made by \<open>MakeTime\<close>, moved by \<open>AddDays\<close> or returned as the peak of an
  eclipse found; the predicate \<open>good\<close>) are ordered by their date as by \<open>tt\<close>; adding a
  day moves \<open>tt\<close> forward by at least some fixed \<open>\<delta> > 0\<close>; a search returns an eclipse
  whose peak is not before the time it was given; and no solar eclipse peaks at the date
  of a lunar one. Then, for every start, observer and window, \<open>getUpcomingEclipses\<close>
  returns (with enough fuel), and whenever it returns, every event is tagged solar or
  lunar and the dates are strictly ascending.
\<close>

theorem getUpcomingEclipses_strictly_ascending:
  assumes make: "\<And>d. good (MakeTime (astronomy E) d)"
    and add: "\<And>p. good p \<Longrightarrow> good (AddDays (astronomy E) p 1)
                  \<and> at_tt p + \<delta> \<le> at_tt (AddDays (astronomy E) p 1)"
    and \<delta>: "0 < \<delta>"
    and solar: "\<And>s ecl. good s \<Longrightarrow> SearchGlobalSolarEclipse (astronomy E) s = Inr (Some ecl)
                  \<Longrightarrow> good (gs_peak ecl) \<and> at_tt s \<le> at_tt (gs_peak ecl)"
    and lunar: "\<And>s ecl. good s \<Longrightarrow> SearchLunarEclipse (astronomy E) s = Inr (Some ecl)
                  \<Longrightarrow> good (le_peak ecl) \<and> at_tt s \<le> at_tt (le_peak ecl)"
    and mono: "\<And>a b. good a \<Longrightarrow> good b \<Longrightarrow> at_tt a < at_tt b \<Longrightarrow> at_date a < at_date b"
    and apart: "\<And>s ecl s' ecl'. good s \<Longrightarrow> good s'
                  \<Longrightarrow> SearchGlobalSolarEclipse (astronomy E) s = Inr (Some ecl)
                  \<Longrightarrow> SearchLunarEclipse (astronomy E) s' = Inr (Some ecl')
                  \<Longrightarrow> at_date (gs_peak ecl) \<noteq> at_date (le_peak ecl')"
  shows "(\<exists>fuel r. getUpcomingEclipses fuel E startTime location daysToSearch = Some r)
       \<and> (\<forall>fuel r. getUpcomingEclipses fuel E startTime location daysToSearch = Some r \<longrightarrow>
            (\<forall>e\<in>set r. ev_type e = solar \<or> ev_type e = lunar)
            \<and> sorted_wrt (<) (map (\<lambda>e. toMillis (ev_date e)) r))"
proof (rule conjI)
  let ?endT = "dateTimeToAstronomyTime E (plus_days (luxon E) startTime daysToSearch)"
  let ?t = "dateTimeToAstronomyTime E startTime"
  let ?key = "\<lambda>a. toMillis (ev_date a)"
  have gt: "good ?t" by (simp only: dateTimeToAstronomyTime_def make)
  have add': "good p \<Longrightarrow> good (AddDays (astronomy E) p 1)
                  \<and> at_tt p < at_tt (AddDays (astronomy E) p 1)" for p
    using add [of p] \<delta> by auto
  show "\<exists>fuel r. getUpcomingEclipses fuel E startTime location daysToSearch = Some r"
  proof -
    let ?n = "nat \<lceil>(at_tt ?endT - at_tt ?t) / \<delta>\<rceil> + 1"
    have n1: "1 \<le> ?n" by simp
    have n2: "(at_tt ?endT - at_tt ?t) / \<delta> + 1 \<le> real ?n" by (rule fuel_enough)
    have "\<exists>r. solarEclipseLoop ?n E location ?endT ?t [] = Some r"
      by (rule solarEclipseLoop_returns [where good = good and \<delta> = \<delta>])
         (erule add | (erule solar, assumption) | rule \<delta> | rule gt | rule n1 | rule n2)+
    then obtain es1 where s: "solarEclipseLoop ?n E location ?endT ?t [] = Some es1"
      by (elim exE)
    have "\<exists>r. lunarEclipseLoop ?n E location ?endT ?t es1 = Some r"
      by (rule lunarEclipseLoop_returns [where good = good and \<delta> = \<delta>])
         (erule add | (erule lunar, assumption) | rule \<delta> | rule gt | rule n1 | rule n2)+
    then obtain es2 where l: "lunarEclipseLoop ?n E location ?endT ?t es1 = Some es2"
      by (elim exE)
    from getUpcomingEclipses_eq [OF s l] show ?thesis by (intro exI)
  qed
  show "\<forall>fuel r. getUpcomingEclipses fuel E startTime location daysToSearch = Some r \<longrightarrow>
            (\<forall>e\<in>set r. ev_type e = solar \<or> ev_type e = lunar)
            \<and> sorted_wrt (<) (map ?key r)"
  proof (intro allI impI)
    fix fuel r
    assume g: "getUpcomingEclipses fuel E startTime location daysToSearch = Some r"
    then obtain es1 es2 where
      s: "solarEclipseLoop fuel E location ?endT ?t [] = Some es1"
      and l: "lunarEclipseLoop fuel E location ?endT ?t es1 = Some es2"
      and r: "r = sort_key ?key es2"
      by (rule getUpcomingEclipses_Some)
    have "\<exists>new. es1 = [] @ new
       \<and> sorted_wrt (<) (map ?key new)
       \<and> (\<forall>e\<in>set new. \<exists>s ecl. good s
              \<and> SearchGlobalSolarEclipse (astronomy E) s = Inr (Some ecl)
              \<and> ?key e = at_date (gs_peak ecl) \<and> at_tt ?t \<le> at_tt (gs_peak ecl))"
      by (rule solarEclipseLoop_strictly_ascending [where good = good])
         (erule add' | (erule solar, assumption) | (erule mono, assumption, assumption)
           | rule gt | rule s)+
    then obtain snew where es1: "es1 = [] @ snew"
      and ssrt: "sorted_wrt (<) (map ?key snew)"
      and sel: "\<forall>e\<in>set snew. \<exists>s ecl. good s
              \<and> SearchGlobalSolarEclipse (astronomy E) s = Inr (Some ecl)
              \<and> ?key e = at_date (gs_peak ecl) \<and> at_tt ?t \<le> at_tt (gs_peak ecl)"
      by (elim exE conjE)
    have "\<exists>new. es2 = es1 @ new
       \<and> sorted_wrt (<) (map ?key new)
       \<and> (\<forall>e\<in>set new. \<exists>s ecl. good s
              \<and> SearchLunarEclipse (astronomy E) s = Inr (Some ecl)
              \<and> ?key e = at_date (le_peak ecl) \<and> at_tt ?t \<le> at_tt (le_peak ecl))"
      by (rule lunarEclipseLoop_strictly_ascending [where good = good])
         (erule add' | (erule lunar, assumption) | (erule mono, assumption, assumption)
           | rule gt | rule l)+
    then obtain lnew where es2: "es2 = es1 @ lnew"
      and lsrt: "sorted_wrt (<) (map ?key lnew)"
      and lel: "\<forall>e\<in>set lnew. \<exists>s ecl. good s
              \<and> SearchLunarEclipse (astronomy E) s = Inr (Some ecl)
              \<and> ?key e = at_date (le_peak ecl) \<and> at_tt ?t \<le> at_tt (le_peak ecl)"
      by (elim exE conjE)
    have disj: "set (map ?key snew) \<inter> set (map ?key lnew) = {}"
    proof (rule ccontr)
      assume "set (map ?key snew) \<inter> set (map ?key lnew) \<noteq> {}"
      then obtain e e' where e: "e \<in> set snew" "e' \<in> set lnew" "?key e = ?key e'"
        by (auto simp only: set_map image_iff Int_iff ex_in_conv [symmetric])
      from sel e(1) obtain s ecl where a: "good s"
        "SearchGlobalSolarEclipse (astronomy E) s = Inr (Some ecl)"
        "?key e = at_date (gs_peak ecl)" by blast
      from lel e(2) obtain s' ecl' where b: "good s'"
        "SearchLunarEclipse (astronomy E) s' = Inr (Some ecl')"
        "?key e' = at_date (le_peak ecl')" by blast
      from apart [OF a(1) b(1) a(2) b(2)] a(3) b(3) e(3) show False by simp
    qed
    from ssrt have "distinct (map ?key snew)" by (simp only: strict_sorted_iff)
    moreover from lsrt have "distinct (map ?key lnew)" by (simp only: strict_sorted_iff)
    ultimately have "distinct (map ?key (snew @ lnew))"
      using disj by (simp only: map_append distinct_append simp_thms)
    then have "distinct (map ?key es2)" by (simp only: es2 es1 append_Nil)
    then have "distinct (map ?key r)" by (simp only: r distinct_map_sort_key)
    moreover have "sorted (map ?key r)" by (simp only: r sorted_sort_key)
    ultimately have "sorted_wrt (<) (map ?key r)" by (simp only: strict_sorted_iff simp_thms)
    with getUpcomingEclipses_ascending(2) [OF g]
    show "(\<forall>e\<in>set r. ev_type e = solar \<or> ev_type e = lunar)
            \<and> sorted_wrt (<) (map ?key r)"
      by (rule conjI)
  qed
qed

theorem getUpcomingEclipses_strictly_ascending_witness:
  "\<exists>r. getUpcomingEclipses 4 eclipseEnv (now testLuxon) newYork 730 = Some r
     \<and> map ev_type r = [lunar, solar, lunar, solar, lunar, solar]
     \<and> sorted_wrt (<) (map (\<lambda>e. toMillis (ev_date e)) r)"
proof -
  let ?f = "\<lambda>e. (ev_type e, dt_ts (ev_date e) / 86400000, ev_isVisible e)"
  have main:
    "(\<exists>fuel r. getUpcomingEclipses fuel eclipseEnv (now testLuxon) newYork 730 = Some r)
       \<and> (\<forall>fuel r. getUpcomingEclipses fuel eclipseEnv (now testLuxon) newYork 730 = Some r \<longrightarrow>
            (\<forall>e\<in>set r. ev_type e = solar \<or> ev_type e = lunar)
            \<and> sorted_wrt (<) (map (\<lambda>e. toMillis (ev_date e)) r))"
    by (rule getUpcomingEclipses_strictly_ascending
          [where good = "\<lambda>t. at_date t = at_tt t * 86400000" and \<delta> = 1])
       (auto simp: eclipseEnv_def eclipseAstronomy_def testAstronomy_def dayTime_def
          split: if_splits)
  from eclipses_newYork obtain r where
    r: "getUpcomingEclipses 4 eclipseEnv (now testLuxon) newYork 730 = Some r"
    and m: "map ?f r = [(lunar, 19984, True), (solar, 19998, True), (lunar, 20161, True),
           (solar, 20176, True), (lunar, 20338, True), (solar, 20353, True)]"
    by (elim exE conjE)
  have "map ev_type r = map fst (map ?f r)" by (simp add: comp_def)
  also have "\<dots> = [lunar, solar, lunar, solar, lunar, solar]" by (simp only: m) simp
  finally have t: "map ev_type r = [lunar, solar, lunar, solar, lunar, solar]" .
  from main have "\<forall>fuel r. getUpcomingEclipses fuel eclipseEnv (now testLuxon) newYork 730 = Some r \<longrightarrow>
            (\<forall>e\<in>set r. ev_type e = solar \<or> ev_type e = lunar)
            \<and> sorted_wrt (<) (map (\<lambda>e. toMillis (ev_date e)) r)"
    by (rule conjunct2)
  then have "getUpcomingEclipses 4 eclipseEnv (now testLuxon) newYork 730 = Some r \<longrightarrow>
            (\<forall>e\<in>set r. ev_type e = solar \<or> ev_type e = lunar)
            \<and> sorted_wrt (<) (map (\<lambda>e. toMillis (ev_date e)) r)"
    by (elim allE)
  with r have "sorted_wrt (<) (map (\<lambda>e. toMillis (ev_date e)) r)" by simp
  with r t show ?thesis by (intro exI [of _ r] conjI)
qed

end
